theory Spec2Isabelle
  imports Main "HOL-Library.Sublist" "HOL-Library.AList"
begin

section \<open>JavaScript values\<close>

text \<open>
  The harness works on plain JavaScript data: the document that \<^verbatim>\<open>yaml.load\<close> returns, the
  params and context handed to the action script, the values a script resolves or rejects
  with. A value is a primitive, an object or an array. Objects and arrays carry a reference
  of type \<open>'r\<close>, because \<^verbatim>\<open>===\<close> compares them by reference and not by content; an object's
  own enumerable properties are an association list in property order. Numbers are the
  integers and \<^verbatim>\<open>NaN\<close>; strings are lists of code units below 256. Functions, symbols and
  the properties inherited from \<^verbatim>\<open>Object.prototype\<close> are not part of the model, and an absent
  property reads as \<open>JUndefined\<close>.
\<close>

datatype 'r jsval =
    JUndefined
  | JNull
  | JBool bool
  | JNum int
  | JNaN
  | JStr string
  | JObj 'r "(string \<times> 'r jsval) list"
  | JArr 'r "'r jsval list"

type_synonym 'r props = "(string \<times> 'r jsval) list"

text \<open>
  What a harness function can throw: an \<^verbatim>\<open>Error\<close> it builds itself (\<^verbatim>\<open>throw new Error(msg)\<close>),
  a \<^verbatim>\<open>TypeError\<close> of the runtime (a property read on \<^verbatim>\<open>undefined\<close>, a call of something that
  is no function), or a value the script threw, passed on unchanged.
\<close>

datatype 'r exn = Error string | TypeError | Thrown "'r jsval"

text \<open>ToBoolean: what \<^verbatim>\<open>!x\<close>, \<^verbatim>\<open>x && y\<close>, \<^verbatim>\<open>x || y\<close> and \<^verbatim>\<open>if (x)\<close> test.\<close>

fun truthy :: "'r jsval \<Rightarrow> bool" where
  "truthy JUndefined = False"
| "truthy JNull = False"
| "truthy (JBool b) = b"
| "truthy (JNum n) = (n \<noteq> 0)"
| "truthy JNaN = False"
| "truthy (JStr s) = (s \<noteq> [])"
| "truthy (JObj r ps) = True"
| "truthy (JArr r xs) = True"

text \<open>\<^verbatim>\<open>a === b\<close>: primitives by value (\<^verbatim>\<open>NaN\<close> equals nothing), objects and arrays by reference.\<close>

fun strict_eq :: "'r jsval \<Rightarrow> 'r jsval \<Rightarrow> bool" where
  "strict_eq JUndefined JUndefined = True"
| "strict_eq JNull JNull = True"
| "strict_eq (JBool a) (JBool b) = (a = b)"
| "strict_eq (JNum a) (JNum b) = (a = b)"
| "strict_eq (JStr a) (JStr b) = (a = b)"
| "strict_eq (JObj r ps) (JObj r' ps') = (r = r')"
| "strict_eq (JArr r xs) (JArr r' xs') = (r = r')"
| "strict_eq a b = False"

text \<open>SameValueZero, the comparison of \<^verbatim>\<open>Array.prototype.includes\<close> and \<^verbatim>\<open>Set.prototype.has\<close>.\<close>

definition same_value_zero :: "'r jsval \<Rightarrow> 'r jsval \<Rightarrow> bool" where
  "same_value_zero a b = (strict_eq a b \<or> (a = JNaN \<and> b = JNaN))"

subsection \<open>Decimal numerals\<close>

definition digit :: "nat \<Rightarrow> char" where
  "digit d = char_of (48 + d)"

fun show_nat :: "nat \<Rightarrow> string" where
  "show_nat n = (if n < 10 then [digit n] else show_nat (n div 10) @ [digit (n mod 10)])"

declare show_nat.simps [simp del]

definition show_int :: "int \<Rightarrow> string" where
  "show_int i = (if i < 0 then CHR ''-'' # show_nat (nat (- i)) else show_nat (nat i))"

subsection \<open>Property access\<close>

text \<open>
  The index properties of an array or a string: element \<open>i\<close> under the key that is the
  decimal numeral of \<open>i\<close>.
\<close>

definition indexed :: "'a list \<Rightarrow> (string \<times> 'a) list" where
  "indexed xs = zip (map show_nat [0..<length xs]) xs"

text \<open>The value of \<^verbatim>\<open>o[key]\<close> for an object with the own properties \<open>ps\<close>.\<close>

definition lookup :: "'r props \<Rightarrow> string \<Rightarrow> 'r jsval" where
  "lookup ps key = (case map_of ps key of Some v \<Rightarrow> v | None \<Rightarrow> JUndefined)"

text \<open>
  \<^verbatim>\<open>v[key]\<close> and \<^verbatim>\<open>v.key\<close>. Reading a property of \<^verbatim>\<open>undefined\<close> or \<^verbatim>\<open>null\<close> throws a TypeError;
  numbers and booleans have no own properties; arrays and strings have their indices and
  \<^verbatim>\<open>length\<close>.
\<close>

fun get_prop :: "'r jsval \<Rightarrow> string \<Rightarrow> 'r exn + 'r jsval" where
  "get_prop JUndefined key = Inl TypeError"
| "get_prop JNull key = Inl TypeError"
| "get_prop (JObj r ps) key = Inr (lookup ps key)"
| "get_prop (JArr r xs) key =
     Inr (if key = ''length'' then JNum (int (length xs))
          else case map_of (indexed xs) key of Some v \<Rightarrow> v | None \<Rightarrow> JUndefined)"
| "get_prop (JStr s) key =
     Inr (if key = ''length'' then JNum (int (length s))
          else case map_of (indexed s) key of Some c \<Rightarrow> JStr [c] | None \<Rightarrow> JUndefined)"
| "get_prop v key = Inr JUndefined"

text \<open>
  A property read on a value that is known to be neither \<^verbatim>\<open>undefined\<close> nor \<^verbatim>\<open>null\<close>, where
  the read cannot throw.
\<close>

definition read_prop :: "'r jsval \<Rightarrow> string \<Rightarrow> 'r jsval" where
  "read_prop v key = (case get_prop v key of Inr x \<Rightarrow> x | Inl e \<Rightarrow> JUndefined)"

text \<open>
  The own enumerable properties that \<^verbatim>\<open>{...v}\<close> copies: all of an object's, the indices of an
  array or a string, none of any other value (spreading \<^verbatim>\<open>undefined\<close> or \<^verbatim>\<open>null\<close> is allowed
  and copies nothing).
\<close>

fun spread :: "'r jsval \<Rightarrow> 'r props" where
  "spread (JObj r ps) = ps"
| "spread (JArr r xs) = indexed xs"
| "spread (JStr s) = map (\<lambda>(k, c). (k, JStr [c])) (indexed s)"
| "spread v = []"

text \<open>\<^verbatim>\<open>Object.entries(v)\<close>: the same properties, but \<^verbatim>\<open>undefined\<close> and \<^verbatim>\<open>null\<close> throw.\<close>

definition object_entries :: "'r jsval \<Rightarrow> 'r exn + 'r props" where
  "object_entries v = (if v = JUndefined \<or> v = JNull then Inl TypeError else Inr (spread v))"

text \<open>
  \<^verbatim>\<open>{...a, ...b}\<close> on property lists: a key of \<open>b\<close> that \<open>a\<close> has keeps its place and takes the
  value of \<open>b\<close>, a new key is appended. \<^verbatim>\<open>o[k] = v\<close> is \<open>AList.update k v\<close>, and
  \<^verbatim>\<open>delete o[k]\<close> is \<open>AList.delete k\<close>.
\<close>

text \<open>\<^verbatim>\<open>Array.isArray(v)\<close>, and the elements of an array.\<close>

fun is_array :: "'r jsval \<Rightarrow> bool" where
  "is_array (JArr r xs) = True"
| "is_array v = False"

fun elements :: "'r jsval \<Rightarrow> 'r jsval list" where
  "elements (JArr r xs) = xs"
| "elements v = []"

text \<open>\<^verbatim>\<open>a || b\<close>.\<close>

definition or_else :: "'r jsval \<Rightarrow> 'r jsval \<Rightarrow> 'r jsval" where
  "or_else a b = (if truthy a then a else b)"

definition merge_props :: "'r props \<Rightarrow> 'r props \<Rightarrow> 'r props" where
  "merge_props a b = foldl (\<lambda>acc (k, v). AList.update k v acc) a b"

subsection \<open>Strings\<close>

fun join :: "string \<Rightarrow> string list \<Rightarrow> string" where
  "join sep [] = []"
| "join sep [s] = s"
| "join sep (s # t # ss) = s @ sep @ join sep (t # ss)"

text \<open>
  ToString, as a template literal \<^verbatim>\<open>`${v}`\<close> applies it. An array joins its elements with
  commas, \<^verbatim>\<open>undefined\<close> and \<^verbatim>\<open>null\<close> elements as the empty string.
\<close>

fun to_string :: "'r jsval \<Rightarrow> string" where
  "to_string JUndefined = ''undefined''"
| "to_string JNull = ''null''"
| "to_string (JBool b) = (if b then ''true'' else ''false'')"
| "to_string (JNum n) = show_int n"
| "to_string JNaN = ''NaN''"
| "to_string (JStr s) = s"
| "to_string (JObj r ps) = ''[object Object]''"
| "to_string (JArr r xs) =
     join '','' (map (\<lambda>x. if x = JUndefined \<or> x = JNull then [] else to_string x) xs)"

text \<open>
  \<^verbatim>\<open>JSON.stringify\<close>. Quotes, backslashes and control characters of a string are escaped;
  \<^verbatim>\<open>NaN\<close> is written \<^verbatim>\<open>null\<close>; a property whose value is \<^verbatim>\<open>undefined\<close> is left out of an
  object and written \<^verbatim>\<open>null\<close> in an array. The result for \<^verbatim>\<open>undefined\<close> itself is
  \<^verbatim>\<open>undefined\<close>, here \<open>None\<close>, which a template literal prints as the word.
\<close>

definition hex_digit :: "nat \<Rightarrow> char" where
  "hex_digit d = (if d < 10 then digit d else char_of (87 + d))"

definition json_escape :: "char \<Rightarrow> string" where
  "json_escape c =
     (if c = CHR 0x22 then [CHR 0x5C, CHR 0x22]
      else if c = CHR 0x5C then [CHR 0x5C, CHR 0x5C]
      else if c = CHR 0x08 then [CHR 0x5C, CHR ''b'']
      else if c = CHR 0x09 then [CHR 0x5C, CHR ''t'']
      else if c = CHR 0x0A then [CHR 0x5C, CHR ''n'']
      else if c = CHR 0x0C then [CHR 0x5C, CHR ''f'']
      else if c = CHR 0x0D then [CHR 0x5C, CHR ''r'']
      else if of_char c < (32::nat)
        then [CHR 0x5C, CHR ''u'', CHR ''0'', CHR ''0'',
              hex_digit (of_char c div 16), hex_digit (of_char c mod 16)]
      else [c])"

definition json_quote :: "string \<Rightarrow> string" where
  "json_quote s = [CHR 0x22] @ concat (map json_escape s) @ [CHR 0x22]"

fun JSON_stringify :: "'r jsval \<Rightarrow> string option" where
  "JSON_stringify JUndefined = None"
| "JSON_stringify JNull = Some ''null''"
| "JSON_stringify (JBool b) = Some (if b then ''true'' else ''false'')"
| "JSON_stringify (JNum n) = Some (show_int n)"
| "JSON_stringify JNaN = Some ''null''"
| "JSON_stringify (JStr s) = Some (json_quote s)"
| "JSON_stringify (JArr r xs) =
     Some (''['' @ join '','' (map (\<lambda>x. case JSON_stringify x of None \<Rightarrow> ''null'' | Some t \<Rightarrow> t) xs)
           @ '']'')"
| "JSON_stringify (JObj r ps) =
     Some (''{'' @ join '','' (concat (map (\<lambda>p. case JSON_stringify (snd p) of
                                                   None \<Rightarrow> []
                                                 | Some t \<Rightarrow> [json_quote (fst p) @ '':'' @ t]) ps))
           @ ''}'')"

definition render :: "string option \<Rightarrow> string" where
  "render t = (case t of None \<Rightarrow> ''undefined'' | Some s \<Rightarrow> s)"

section \<open>The assertion engine\<close>

text \<open>
  The action script is an external module with an \<^verbatim>\<open>invoke\<close> capability and, optionally, an
  \<^verbatim>\<open>error\<close> capability, both asynchronous functions of params and context. Awaiting a call
  either resolves with a value or rejects with the value thrown. The harness creates the
  params object itself, so params are a property list; the context is only passed on and its
  type is left open. Every call of a capability is appended to a log, which is how the
  theorems below speak about what was called, with which arguments, and in which order.
\<close>

datatype 'r outcome = Resolved "'r jsval" | Rejected "'r jsval"

record ('r, 'c) script =
  invoke :: "'r props \<Rightarrow> 'c \<Rightarrow> 'r outcome"
  error :: "('r props \<Rightarrow> 'c \<Rightarrow> 'r outcome) option"

datatype ('r, 'c) call = InvokeCall "'r props" 'c | ErrorCall "'r props" 'c

type_synonym ('r, 'c) thunk = "('r, 'c) call list \<Rightarrow> 'r outcome \<times> ('r, 'c) call list"

definition call_invoke :: "('r, 'c) script \<Rightarrow> 'r props \<Rightarrow> 'c \<Rightarrow> ('r, 'c) thunk" where
  "call_invoke scr params context log = (invoke scr params context, log @ [InvokeCall params context])"

definition call_error ::
  "('r props \<Rightarrow> 'c \<Rightarrow> 'r outcome) \<Rightarrow> 'r props \<Rightarrow> 'c \<Rightarrow> ('r, 'c) thunk" where
  "call_error handler params context log = (handler params context, log @ [ErrorCall params context])"

text \<open>
  The loop of \<^verbatim>\<open>assertInvokeReturns\<close> and \<^verbatim>\<open>assertErrorReturns\<close> over \<^verbatim>\<open>Object.entries(expected)\<close>.
  The two functions differ only in the words that open the message, \<open>what\<close> here.
\<close>

definition mismatch_message :: "string \<Rightarrow> string \<Rightarrow> 'r jsval \<Rightarrow> 'r jsval \<Rightarrow> string" where
  "mismatch_message what key val actual =
     ''Expected '' @ what @ ''.'' @ key @ '' to be '' @ render (JSON_stringify val)
       @ '', got '' @ render (JSON_stringify actual)"

fun returns_loop :: "string \<Rightarrow> 'r jsval \<Rightarrow> 'r props \<Rightarrow> 'r exn + 'r jsval" where
  "returns_loop what result [] = Inr result"
| "returns_loop what result ((key, val) # rest) =
     (case get_prop result key of
        Inl x \<Rightarrow> Inl x
      | Inr actual \<Rightarrow>
          if \<not> strict_eq actual val then Inl (Error (mismatch_message what key val actual))
          else returns_loop what result rest)"

definition assert_returns ::
  "string \<Rightarrow> ('r, 'c) thunk \<Rightarrow> 'r jsval \<Rightarrow> ('r, 'c) call list
     \<Rightarrow> ('r exn + 'r jsval) \<times> ('r, 'c) call list" where
  "assert_returns what fn expected log =
     (case fn log of
        (Rejected e, log') \<Rightarrow> (Inl (Thrown e), log')
      | (Resolved result, log') \<Rightarrow>
          (case object_entries expected of
             Inl x \<Rightarrow> (Inl x, log')
           | Inr entries \<Rightarrow> (returns_loop what result entries, log')))"

definition assertInvokeReturns ::
  "('r, 'c) thunk \<Rightarrow> 'r jsval \<Rightarrow> ('r, 'c) call list \<Rightarrow> ('r exn + 'r jsval) \<times> ('r, 'c) call list" where
  "assertInvokeReturns invokeFn expected = assert_returns ''invoke result'' invokeFn expected"

definition assertErrorReturns ::
  "('r, 'c) thunk \<Rightarrow> 'r jsval \<Rightarrow> ('r, 'c) call list \<Rightarrow> ('r exn + 'r jsval) \<times> ('r, 'c) call list" where
  "assertErrorReturns errorFn expected = assert_returns ''error handler result'' errorFn expected"

text \<open>
  \<^verbatim>\<open>caught.message.includes(expectedMessage)\<close>. On a string it is the substring test against
  the expected value converted to a string; on an array it is membership; anything else has
  no \<^verbatim>\<open>includes\<close> method and the call throws a TypeError.
\<close>

fun message_includes :: "'r jsval \<Rightarrow> 'r jsval \<Rightarrow> 'r exn + bool" where
  "message_includes (JStr m) expected = Inr (sublist (to_string expected) m)"
| "message_includes (JArr r xs) expected = Inr (list_ex (\<lambda>x. same_value_zero x expected) xs)"
| "message_includes v expected = Inl TypeError"

definition contain_message :: "'r jsval \<Rightarrow> 'r jsval \<Rightarrow> string" where
  "contain_message expected message =
     ''Expected error message to contain '' @ [CHR 0x22] @ to_string expected @ [CHR 0x22]
       @ '', got '' @ [CHR 0x22] @ to_string message @ [CHR 0x22]"

text \<open>
  \<^verbatim>\<open>assertInvokeThrows\<close> and \<^verbatim>\<open>assertErrorThrows\<close>; \<open>who\<close> is \<^verbatim>\<open>invoke\<close> or \<^verbatim>\<open>error handler\<close>.
  \<open>caught\<close> stays \<^verbatim>\<open>undefined\<close> when the call resolves, and the test is \<^verbatim>\<open>!caught\<close>.
\<close>

definition assert_throws ::
  "string \<Rightarrow> ('r, 'c) thunk \<Rightarrow> 'r jsval \<Rightarrow> ('r, 'c) call list
     \<Rightarrow> ('r exn + 'r jsval) \<times> ('r, 'c) call list" where
  "assert_throws who fn expectedMessage log =
     (case fn log of (out, log') \<Rightarrow>
        let caught = (case out of Resolved v \<Rightarrow> JUndefined | Rejected e \<Rightarrow> e) in
        if \<not> truthy caught
          then (Inl (Error (''Expected '' @ who @ '' to throw, but it returned successfully'')), log')
        else if truthy expectedMessage then
          (case get_prop caught ''message'' of
             Inl x \<Rightarrow> (Inl x, log')
           | Inr message \<Rightarrow>
               (case message_includes message expectedMessage of
                  Inl x \<Rightarrow> (Inl x, log')
                | Inr found \<Rightarrow>
                    if \<not> found then (Inl (Error (contain_message expectedMessage message)), log')
                    else (Inr caught, log')))
        else (Inr caught, log'))"

definition assertInvokeThrows ::
  "('r, 'c) thunk \<Rightarrow> 'r jsval \<Rightarrow> ('r, 'c) call list \<Rightarrow> ('r exn + 'r jsval) \<times> ('r, 'c) call list" where
  "assertInvokeThrows invokeFn expectedMessage = assert_throws ''invoke'' invokeFn expectedMessage"

definition assertErrorThrows ::
  "('r, 'c) thunk \<Rightarrow> 'r jsval \<Rightarrow> ('r, 'c) call list \<Rightarrow> ('r exn + 'r jsval) \<times> ('r, 'c) call list" where
  "assertErrorThrows errorFn expectedMessage = assert_throws ''error handler'' errorFn expectedMessage"

text \<open>An \<^verbatim>\<open>await\<close> of an assertion whose value is not used: only the failure and the log remain.\<close>

definition discard ::
  "('r exn + 'a) \<times> ('r, 'c) call list \<Rightarrow> ('r exn + unit) \<times> ('r, 'c) call list" where
  "discard res = (case res of (Inl x, log) \<Rightarrow> (Inl x, log) | (Inr v, log) \<Rightarrow> (Inr (), log))"

text \<open>
  The error phase of \<^verbatim>\<open>runScenarioHandlers\<close>: the body of \<^verbatim>\<open>if (errorExpect && script.error)\<close>.
\<close>

definition error_phase ::
  "('r props \<Rightarrow> 'c \<Rightarrow> 'r outcome) \<Rightarrow> 'r props \<Rightarrow> 'c \<Rightarrow> 'r jsval \<Rightarrow> 'r jsval
     \<Rightarrow> ('r, 'c) call list \<Rightarrow> ('r exn + unit) \<times> ('r, 'c) call list" where
  "error_phase handler params context errorExpect caughtError log =
     (let errorParams = AList.update ''error'' caughtError params in
      case get_prop errorExpect ''returns'' of
        Inl x \<Rightarrow> (Inl x, log)
      | Inr r \<Rightarrow>
          if truthy r
            then discard (assertErrorReturns (call_error handler errorParams context) r log)
          else
            (case get_prop errorExpect ''throws'' of
               Inl x \<Rightarrow> (Inl x, log)
             | Inr t \<Rightarrow>
                 if t \<noteq> JUndefined
                   then discard (assertErrorThrows (call_error handler errorParams context) t log)
                 else (Inr (), log)))"

definition runScenarioHandlers ::
  "('r, 'c) script \<Rightarrow> 'r props \<Rightarrow> 'c \<Rightarrow> 'r jsval \<Rightarrow> ('r, 'c) call list
     \<Rightarrow> ('r exn + unit) \<times> ('r, 'c) call list" where
  "runScenarioHandlers scr params context scenario log =
     (case get_prop scenario ''invoke'' of
        Inl x \<Rightarrow> (Inl x, log)
      | Inr invokeExpect \<Rightarrow>
     (case get_prop scenario ''error'' of
        Inl x \<Rightarrow> (Inl x, log)
      | Inr errorExpect \<Rightarrow>
     (case get_prop invokeExpect ''returns'' of
        Inl x \<Rightarrow> (Inl x, log)
      | Inr r \<Rightarrow>
          if truthy r
            then discard (assertInvokeReturns (call_invoke scr params context) r log)
          else
            (case get_prop invokeExpect ''throws'' of
               Inl x \<Rightarrow> (Inl x, log)
             | Inr t \<Rightarrow>
                 if t \<noteq> JUndefined then
                   (case assertInvokeThrows (call_invoke scr params context) t log of
                      (Inl x, log') \<Rightarrow> (Inl x, log')
                    | (Inr caughtError, log') \<Rightarrow>
                        (case error scr of
                           Some handler \<Rightarrow>
                             if truthy errorExpect
                               then error_phase handler params context errorExpect caughtError log'
                             else (Inr (), log')
                         | None \<Rightarrow> (Inr (), log')))
                 else (Inr (), log)))))"

text \<open>
  The scenario has an expectation in a section (\<^verbatim>\<open>invoke\<close> or \<^verbatim>\<open>error\<close>) when the section is
  present and is of the \<^verbatim>\<open>returns\<close> form or of the \<^verbatim>\<open>throws\<close> form, judged the way
  \<^verbatim>\<open>runScenarioHandlers\<close> tests it: a truthy \<^verbatim>\<open>returns\<close>, or a \<^verbatim>\<open>throws\<close> other than \<^verbatim>\<open>undefined\<close>.
\<close>

definition is_expectation :: "'r jsval \<Rightarrow> bool" where
  "is_expectation x =
     (truthy x \<and>
      (case (get_prop x ''returns'', get_prop x ''throws'') of
         (Inr r, Inr t) \<Rightarrow> truthy r \<or> t \<noteq> JUndefined
       | _ \<Rightarrow> False))"

subsection \<open>Example scripts and scenarios\<close>

text \<open>
  A script whose \<^verbatim>\<open>invoke\<close> rejects with a rate-limit error and whose error handler asks for
  a retry, as in the README's "rate limited" scenario.
\<close>

definition rate_limit_error :: "nat jsval" where
  "rate_limit_error = JObj 1 [(''message'', JStr ''HTTP 429 rate limit'')]"

definition failing_script :: "(nat, unit) script" where
  "failing_script =
     \<lparr>invoke = (\<lambda>params context. Rejected rate_limit_error),
      error = Some (\<lambda>params context. Resolved (JObj 2 [(''status'', JStr ''retry_requested'')]))\<rparr>"

definition rate_limited_scenario :: "nat jsval" where
  "rate_limited_scenario =
     JObj 3 [(''name'', JStr ''rate limited''),
             (''invoke'', JObj 4 [(''throws'', JStr ''rate limit'')]),
             (''error'', JObj 5 [(''returns'', JObj 6 [(''status'', JStr ''retry_requested'')])])]"

text \<open>A script that suspends a user and reports it, and what a scenario expects of it.\<close>

definition suspend_result :: "nat jsval" where
  "suspend_result =
     JObj 7 [(''userId'', JStr ''usr123''), (''suspended'', JBool False), (''extra'', JNum 1)]"

definition suspend_script :: "(nat, unit) script" where
  "suspend_script = \<lparr>invoke = (\<lambda>params context. Resolved suspend_result), error = None\<rparr>"

definition suspend_expected :: "nat jsval" where
  "suspend_expected = JObj 8 [(''userId'', JStr ''usr123''), (''suspended'', JBool True)]"

text \<open>A scenario whose \<^verbatim>\<open>invoke\<close> section is an empty mapping.\<close>

definition empty_invoke_scenario :: "nat jsval" where
  "empty_invoke_scenario = JObj 9 [(''name'', JStr ''nothing expected''), (''invoke'', JObj 10 [])]"

text \<open>The same script without the extra key in its result.\<close>

definition plain_result :: "nat jsval" where
  "plain_result = JObj 11 [(''userId'', JStr ''usr123''), (''suspended'', JBool False)]"

definition plain_script :: "(nat, unit) script" where
  "plain_script = \<lparr>invoke = (\<lambda>params context. Resolved plain_result), error = None\<rparr>"


section \<open>The scenario parser\<close>

text \<open>
  The parser works on the document that \<^verbatim>\<open>yaml.load\<close> returns. Nothing in the parser, in the
  merge of defaults or in the interception setup compares two objects by reference, so their
  values carry the trivial reference \<open>()\<close>. The text-to-document step is the YAML library's
  and is not modelled: \<open>parseScenariosString\<close> below takes the loaded document where the
  source takes the text.
\<close>

type_synonym yaml = "unit jsval"

subsection \<open>The built-in common scenarios\<close>

text \<open>\<^verbatim>\<open>{ method: baseRequest.method, url: baseRequest.url }\<close>\<close>

definition base_request :: "yaml \<Rightarrow> unit exn + yaml" where
  "base_request baseRequest =
     (case get_prop baseRequest ''method'' of
        Inl x \<Rightarrow> Inl x
      | Inr m \<Rightarrow>
          (case get_prop baseRequest ''url'' of
             Inl x \<Rightarrow> Inl x
           | Inr u \<Rightarrow> Inr (JObj () [(''method'', m), (''url'', u)])))"

text \<open>
  The \<^verbatim>\<open>generate\<close> function of the seven HTTP-status templates: one step that answers the
  template request with a canned response, and the expectation \<^verbatim>\<open>throws: ''\<close>.
\<close>

definition http_error_scenario :: "int \<Rightarrow> unit props \<Rightarrow> string \<Rightarrow> yaml \<Rightarrow> unit exn + unit props" where
  "http_error_scenario status headers body baseRequest =
     (case base_request baseRequest of
        Inl x \<Rightarrow> Inl x
      | Inr request \<Rightarrow>
          Inr [(''steps'',
                JArr () [JObj () [(''request'', request),
                                  (''fixtureData'',
                                   JObj () [(''statusCode'', JNum status),
                                            (''headers'', JObj () headers),
                                            (''body'', JStr body)])]]),
               (''invoke'', JObj () [(''throws'', JStr [])])])"

text \<open>The \<^verbatim>\<open>generate\<close> function of the network-error template.\<close>

definition network_error_scenario :: "yaml \<Rightarrow> unit exn + unit props" where
  "network_error_scenario baseRequest =
     (case base_request baseRequest of
        Inl x \<Rightarrow> Inl x
      | Inr request \<Rightarrow>
          Inr [(''steps'', JArr () [JObj () [(''request'', request), (''networkError'', JBool True)]]),
               (''invoke'', JObj () [(''throws'', JStr [])])])"

definition json_type :: "unit props" where
  "json_type = [(''Content-Type'', JStr ''application/json'')]"

definition html_type :: "unit props" where
  "html_type = [(''Content-Type'', JStr ''text/html'')]"

definition COMMON_SCENARIOS :: "(string \<times> (yaml \<Rightarrow> unit exn + unit props)) list" where
  "COMMON_SCENARIOS =
     [(''handles 401 unauthorized'',
       http_error_scenario 401 json_type
         ''{\"error\":\"Unauthorized\",\"message\":\"Invalid or expired token\"}''),
      (''handles 403 forbidden'',
       http_error_scenario 403 json_type
         ''{\"error\":\"Forbidden\",\"message\":\"Insufficient permissions\"}''),
      (''handles 429 rate limit'',
       http_error_scenario 429 (json_type @ [(''Retry-After'', JStr ''30'')])
         ''{\"error\":\"Too Many Requests\",\"message\":\"Rate limit exceeded\"}''),
      (''handles 500 internal server error'',
       http_error_scenario 500 json_type ''{\"error\":\"Internal Server Error\"}''),
      (''handles 502 bad gateway'',
       http_error_scenario 502 html_type ''<html><body>Bad Gateway</body></html>''),
      (''handles 503 service unavailable'',
       http_error_scenario 503 json_type ''{\"error\":\"Service Unavailable\"}''),
      (''handles 504 gateway timeout'',
       http_error_scenario 504 html_type ''<html><body>Gateway Timeout</body></html>''),
      (''handles network error'', network_error_scenario)]"

subsection \<open>Normalisation and validation\<close>

definition normaliseScenario :: "yaml \<Rightarrow> unit exn + unit props" where
  "normaliseScenario scenario =
     (let normalised = spread scenario in
      if \<not> truthy (lookup normalised ''steps'') then
        if \<not> truthy (lookup normalised ''request'') then
          Inl (Error (''Scenario \"'' @ to_string (lookup normalised ''name'')
                      @ ''\" must have either \"request\" or \"steps\"''))
        else
          Inr (AList.delete ''fixture''
                (AList.delete ''request''
                  (AList.update ''steps''
                     (JArr () [JObj () [(''request'', lookup normalised ''request''),
                                        (''fixture'', lookup normalised ''fixture'')]])
                     normalised)))
      else Inr normalised)"

definition validateScenario :: "yaml \<Rightarrow> nat \<Rightarrow> unit exn + unit" where
  "validateScenario scenario index =
     (case get_prop scenario ''name'' of
        Inl x \<Rightarrow> Inl x
      | Inr name \<Rightarrow>
          if \<not> truthy name then
            Inl (Error (''Scenario at index '' @ show_nat index
                        @ '' is missing required field \"name\"''))
          else
            (case get_prop scenario ''invoke'' of
               Inl x \<Rightarrow> Inl x
             | Inr expectation \<Rightarrow>
                 if \<not> truthy expectation then
                   Inl (Error (''Scenario \"'' @ to_string name
                               @ ''\" is missing required field \"invoke\"''))
                 else Inr ()))"

subsection \<open>Parsing\<close>

record parsed =
  action :: yaml
  scenarios :: "unit props list"

text \<open>
  \<^verbatim>\<open>doc.scenarios.map((s, i) => { validateScenario(s, i); return normaliseScenario(s); })\<close>,
  from index \<open>i\<close> on; the first exception ends the map.
\<close>

fun map_scenarios :: "yaml list \<Rightarrow> nat \<Rightarrow> unit exn + unit props list" where
  "map_scenarios [] i = Inr []"
| "map_scenarios (s # ss) i =
     (case validateScenario s i of
        Inl x \<Rightarrow> Inl x
      | Inr u \<Rightarrow>
          (case normaliseScenario s of
             Inl x \<Rightarrow> Inl x
           | Inr n \<Rightarrow>
               (case map_scenarios ss (Suc i) of
                  Inl x \<Rightarrow> Inl x
                | Inr ns \<Rightarrow> Inr (n # ns))))"

text \<open>\<^verbatim>\<open>userScenarios[0].steps[0].request\<close>\<close>

definition template_request :: "unit props list \<Rightarrow> unit exn + yaml" where
  "template_request userScenarios =
     (case userScenarios of
        [] \<Rightarrow> Inl TypeError
      | first # others \<Rightarrow>
          (case get_prop (lookup first ''steps'') ''0'' of
             Inl x \<Rightarrow> Inl x
           | Inr step \<Rightarrow> get_prop step ''request''))"

text \<open>
  The loop over \<^verbatim>\<open>COMMON_SCENARIOS\<close>. \<open>userNames\<close> are the elements of the Set of user-defined
  names, and \<^verbatim>\<open>userNames.has\<close> compares with SameValueZero.
\<close>

fun add_common ::
  "yaml list \<Rightarrow> yaml \<Rightarrow> (string \<times> (yaml \<Rightarrow> unit exn + unit props)) list \<Rightarrow> unit props list
     \<Rightarrow> unit exn + unit props list" where
  "add_common userNames templateRequest [] allScenarios = Inr allScenarios"
| "add_common userNames templateRequest ((cname, generate) # rest) allScenarios =
     (if list_ex (\<lambda>n. same_value_zero n (JStr cname)) userNames
        then add_common userNames templateRequest rest allScenarios
      else
        (case generate templateRequest of
           Inl x \<Rightarrow> Inl x
         | Inr generated \<Rightarrow>
             add_common userNames templateRequest rest
               (allScenarios @
                  [AList.update ''_common'' (JBool True)
                     (merge_props [(''name'', JStr cname)] generated)])))"

text \<open>
  \<open>options\<close> is \<open>JUndefined\<close> when the caller passes none; the parameter default \<^verbatim>\<open>= {}\<close> and
  the destructuring default \<^verbatim>\<open>includeCommon = false\<close> both apply to \<^verbatim>\<open>undefined\<close> only.
\<close>

definition parseScenariosString :: "yaml \<Rightarrow> yaml \<Rightarrow> unit exn + parsed" where
  "parseScenariosString doc options =
     (case get_prop (if options = JUndefined then JObj () [] else options) ''includeCommon'' of
        Inl x \<Rightarrow> Inl x
      | Inr given \<Rightarrow>
     (let includeCommon = (if given = JUndefined then JBool False else given) in
      case get_prop doc ''action'' of
        Inl x \<Rightarrow> Inl x
      | Inr act \<Rightarrow>
          if \<not> truthy act then Inl (Error ''scenarios.yaml must have an \"action\" section'')
          else
     (case get_prop doc ''scenarios'' of
        Inl x \<Rightarrow> Inl x
      | Inr scs \<Rightarrow>
          if \<not> truthy scs \<or> \<not> is_array scs \<or> length (elements scs) = 0 then
            Inl (Error ''scenarios.yaml must have a \"scenarios\" array with at least one scenario'')
          else
     (case map_scenarios (elements scs) 0 of
        Inl x \<Rightarrow> Inl x
      | Inr userScenarios \<Rightarrow>
          if truthy includeCommon then
            (case template_request userScenarios of
               Inl x \<Rightarrow> Inl x
             | Inr templateRequest \<Rightarrow>
                 (case add_common (map (\<lambda>s. lookup s ''name'') userScenarios) templateRequest
                         COMMON_SCENARIOS userScenarios of
                    Inl x \<Rightarrow> Inl x
                  | Inr allScenarios \<Rightarrow> Inr \<lparr>action = act, scenarios = allScenarios\<rparr>))
          else Inr \<lparr>action = act, scenarios = userScenarios\<rparr>))))"

text \<open>
  \<^verbatim>\<open>parseScenarios\<close> reads the file and parses its content; the model takes the document the
  file holds and leaves the attached \<^verbatim>\<open>filePath\<close> out.
\<close>

definition parseScenarios :: "yaml \<Rightarrow> yaml \<Rightarrow> unit exn + parsed" where
  "parseScenarios fileDoc options =
     parseScenariosString fileDoc (if options = JUndefined then JObj () [] else options)"

text \<open>
  \<^verbatim>\<open>runScenarios\<close>, up to the parse: the destructuring of its options, with the default
  \<^verbatim>\<open>includeCommon = true\<close>, and the call \<^verbatim>\<open>parseScenarios(path, { includeCommon })\<close>. The value
  is the parsed set for whose scenarios the tests are then registered; path resolution and
  the registration with the test runner are outside the model.
\<close>

definition runScenarios :: "yaml \<Rightarrow> yaml \<Rightarrow> unit exn + parsed" where
  "runScenarios options fileDoc =
     (case get_prop options ''includeCommon'' of
        Inl x \<Rightarrow> Inl x
      | Inr given \<Rightarrow>
          (let includeCommon = (if given = JUndefined then JBool True else given) in
           parseScenarios fileDoc (JObj () [(''includeCommon'', includeCommon)])))"



subsection \<open>Example documents\<close>

definition suspend_request :: yaml where
  "suspend_request =
     JObj () [(''method'', JStr ''POST''),
              (''url'', JStr ''https://dev-123.okta.com/api/v1/users/usr123/lifecycle/suspend'')]"

text \<open>A scenario in the shorthand form, and one in the steps form that takes a template's name.\<close>

definition shorthand_scenario :: yaml where
  "shorthand_scenario =
     JObj () [(''name'', JStr ''suspends active user''),
              (''request'', suspend_request),
              (''fixture'', JStr ''fixtures/200-suspended.http''),
              (''invoke'', JObj () [(''returns'', JObj () [(''userId'', JStr ''usr123'')])])]"

definition own_401_scenario :: yaml where
  "own_401_scenario =
     JObj () [(''name'', JStr ''handles 401 unauthorized''),
              (''steps'', JArr () [JObj () [(''request'', suspend_request),
                                            (''fixture'', JStr ''fixtures/401.http'')]]),
              (''invoke'', JObj () [(''throws'', JStr ''401'')])]"

definition example_action :: yaml where
  "example_action = JObj () [(''params'', JObj () [(''userId'', JStr ''usr123'')])]"

definition example_doc :: yaml where
  "example_doc =
     JObj () [(''action'', example_action),
              (''scenarios'', JArr () [shorthand_scenario, own_401_scenario])]"

text \<open>A document whose only scenario has a name and nothing else.\<close>

definition incomplete_scenario :: yaml where
  "incomplete_scenario = JObj () [(''name'', JStr ''incomplete'')]"

definition incomplete_doc :: yaml where
  "incomplete_doc =
     JObj () [(''action'', example_action), (''scenarios'', JArr () [incomplete_scenario])]"

text \<open>What normalisation makes of the two scenarios of \<open>example_doc\<close>.\<close>

definition shorthand_normalised :: "unit props" where
  "shorthand_normalised =
     [(''name'', JStr ''suspends active user''),
      (''invoke'', JObj () [(''returns'', JObj () [(''userId'', JStr ''usr123'')])]),
      (''steps'', JArr () [JObj () [(''request'', suspend_request),
                                    (''fixture'', JStr ''fixtures/200-suspended.http'')]])]"

definition own_401_normalised :: "unit props" where
  "own_401_normalised =
     [(''name'', JStr ''handles 401 unauthorized''),
      (''steps'', JArr () [JObj () [(''request'', suspend_request),
                                    (''fixture'', JStr ''fixtures/401.http'')]]),
      (''invoke'', JObj () [(''throws'', JStr ''401'')])]"

text \<open>A scenario with a name and an expectation, but neither steps nor a request.\<close>

definition no_steps_scenario :: yaml where
  "no_steps_scenario =
     JObj () [(''name'', JStr ''no steps''), (''invoke'', JObj () [(''throws'', JStr [])])]"

definition no_steps_doc :: yaml where
  "no_steps_doc =
     JObj () [(''action'', example_action),
              (''scenarios'', JArr () [shorthand_scenario, no_steps_scenario])]"

text \<open>A document whose second scenario has no name.\<close>

definition nameless_doc :: yaml where
  "nameless_doc =
     JObj () [(''action'', example_action),
              (''scenarios'', JArr () [shorthand_scenario,
                                       JObj () [(''invoke'', JObj () [(''throws'', JStr [])])]])]"




section \<open>Merging the defaults\<close>

text \<open>
  \<^verbatim>\<open>mergeDefaults(action, scenario)\<close>. The action is the \<^verbatim>\<open>action\<close> section of the document and the
  scenario one of the parsed scenarios; the result is the pair of \<^verbatim>\<open>params\<close> and \<^verbatim>\<open>context\<close>.
  Every property read below the first is on a truthy value or on a fresh \<^verbatim>\<open>{}\<close>, so only
  the reads on the action itself can throw.
\<close>

definition mergeDefaults :: "yaml \<Rightarrow> unit props \<Rightarrow> unit exn + unit props \<times> unit props" where
  "mergeDefaults act scenario =
     (case get_prop act ''params'' of
        Inl x \<Rightarrow> Inl x
      | Inr actionParams \<Rightarrow>
     (case get_prop act ''context'' of
        Inl x \<Rightarrow> Inl x
      | Inr declared \<Rightarrow>
     (let params = merge_props (spread actionParams)
                     (spread (or_else (lookup scenario ''params'') (JObj () [])));
          actionContext = or_else declared (JObj () []);
          scenarioContext = or_else (lookup scenario ''context'') (JObj () []);
          context =
            AList.update ''environment''
              (JObj () (merge_props
                          (spread (or_else (read_prop actionContext ''environment'') (JObj () [])))
                          (spread (or_else (read_prop scenarioContext ''environment'') (JObj () [])))))
              (AList.update ''secrets''
                 (JObj () (merge_props
                             (spread (or_else (read_prop actionContext ''secrets'') (JObj () [])))
                             (spread (or_else (read_prop scenarioContext ''secrets'') (JObj () [])))))
                 (merge_props (spread actionContext) (spread scenarioContext)))
      in Inr (params, context))))"

subsection \<open>Example defaults\<close>

definition ab_action :: yaml where
  "ab_action = JObj () [(''params'', JObj () [(''a'', JNum 1), (''b'', JNum 2)])]"

definition bc_scenario :: "unit props" where
  "bc_scenario = [(''name'', JStr ''override''),
                  (''params'', JObj () [(''b'', JNum 3), (''c'', JNum 4)])]"

text \<open>Defaults and an override with a nested object and with secrets.\<close>

definition nested_action :: yaml where
  "nested_action =
     JObj () [(''params'', JObj () [(''filter'', JObj () [(''x'', JNum 1), (''y'', JNum 2)])]),
              (''context'', JObj () [(''secrets'', JObj () [(''API_TOKEN'', JStr ''test-token''),
                                                            (''OTHER'', JStr ''kept'')])])]"

definition nested_scenario :: "unit props" where
  "nested_scenario =
     [(''name'', JStr ''nested''),
      (''params'', JObj () [(''filter'', JObj () [(''x'', JNum 9)])]),
      (''context'', JObj () [(''secrets'', JObj () [(''API_TOKEN'', JStr ''expired'')])])]"

section \<open>Interception setup\<close>

text \<open>
  What \<^verbatim>\<open>setupNock\<close> registers for a step: the origin the scope is created for, the nock
  method, the path with the query, the request headers to match if the step gives any, and
  the reply. The returned handles are the scopes, one for each interceptor, so the model
  returns the list of what was registered.
\<close>

datatype reply = ReplyWithError string | Reply yaml yaml yaml

datatype interceptor =
  Interceptor (scope_origin: string) (nock_method: string) (scope_path: string)
    (reqheaders: "yaml option") (scope_reply: reply)

definition METHOD_MAP :: "(string \<times> string) list" where
  "METHOD_MAP =
     [(''GET'', ''get''), (''POST'', ''post''), (''PUT'', ''put''), (''PATCH'', ''patch''),
      (''DELETE'', ''delete''), (''HEAD'', ''head''), (''OPTIONS'', ''options'')]"

text \<open>
  \<^verbatim>\<open>toUpperCase\<close>, on the letters a to z. On the other code units below 256 the JavaScript
  function yields no letter A to Z except for the sharp s, which becomes \<^verbatim>\<open>SS\<close>; no key of
  \<^verbatim>\<open>METHOD_MAP\<close> contains \<^verbatim>\<open>SS\<close>, so the lookup in \<^verbatim>\<open>METHOD_MAP\<close> is the same.
\<close>

definition upper_char :: "char \<Rightarrow> char" where
  "upper_char c =
     (let n = (of_char c :: nat) in if 97 \<le> n \<and> n \<le> 122 then char_of (n - 32) else c)"

definition toUpperCase :: "string \<Rightarrow> string" where
  "toUpperCase s = map upper_char s"

text \<open>
  The body of the loop of \<^verbatim>\<open>setupNock\<close> for one step. \<^verbatim>\<open>new URL\<close> is the platform's URL parser,
  taken as the parameter \<open>parse_url\<close>: it gives the origin and the path with the query, or
  \<open>None\<close> where \<^verbatim>\<open>new URL\<close> throws a TypeError. A \<^verbatim>\<open>request.method\<close> that is no string has no
  \<^verbatim>\<open>toUpperCase\<close>, which is a TypeError too.
\<close>

definition install_step :: "(string \<Rightarrow> (string \<times> string) option) \<Rightarrow> yaml \<Rightarrow> unit exn + interceptor" where
  "install_step parse_url step =
     (case (get_prop step ''request'', get_prop step ''fixtureData'', get_prop step ''networkError'') of
        (Inr request, Inr fixtureData, Inr networkError) \<Rightarrow>
          (case get_prop request ''url'' of
             Inl x \<Rightarrow> Inl x
           | Inr url \<Rightarrow>
          (case parse_url (to_string url) of
             None \<Rightarrow> Inl TypeError
           | Some (origin, path) \<Rightarrow>
          (case get_prop request ''method'' of
             Inr (JStr m) \<Rightarrow>
               (case map_of METHOD_MAP (toUpperCase m) of
                  None \<Rightarrow> Inl (Error (''Unsupported HTTP method: '' @ m))
                | Some method \<Rightarrow>
                    (let given = read_prop request ''headers'';
                         matching = (if truthy given then Some given else None)
                     in
                     if truthy networkError then
                       Inr (Interceptor origin method path matching
                              (ReplyWithError ''Network error: connection refused''))
                     else if truthy fixtureData then
                       Inr (Interceptor origin method path matching
                              (Reply (read_prop fixtureData ''statusCode'')
                                     (read_prop fixtureData ''body'')
                                     (read_prop fixtureData ''headers'')))
                     else
                       Inl (Error (''Step for '' @ m @ '' '' @ to_string url
                                   @ '' has no fixtureData or networkError''))))
           | other \<Rightarrow> Inl TypeError)))
      | other \<Rightarrow> Inl TypeError)"

fun setupNock_loop ::
  "(string \<Rightarrow> (string \<times> string) option) \<Rightarrow> yaml list \<Rightarrow> interceptor list
     \<Rightarrow> unit exn + interceptor list" where
  "setupNock_loop parse_url [] scopes = Inr scopes"
| "setupNock_loop parse_url (step # rest) scopes =
     (case install_step parse_url step of
        Inl x \<Rightarrow> Inl x
      | Inr scope \<Rightarrow> setupNock_loop parse_url rest (scopes @ [scope]))"

definition setupNock :: "(string \<Rightarrow> (string \<times> string) option) \<Rightarrow> yaml list \<Rightarrow> unit exn + interceptor list" where
  "setupNock parse_url steps = setupNock_loop parse_url steps []"

text \<open>A verb is supported when, put in upper case, it is one of the seven names.\<close>

definition supported_verb :: "string \<Rightarrow> bool" where
  "supported_verb m =
     (toUpperCase m \<in> set [''GET'', ''POST'', ''PUT'', ''PATCH'', ''DELETE'', ''HEAD'', ''OPTIONS''])"

subsection \<open>Example steps\<close>

definition users_url :: "string \<Rightarrow> (string \<times> string) option" where
  "users_url s =
     (if s = ''https://api.example.com/users?active=1''
      then Some (''https://api.example.com'', ''/users?active=1'') else None)"

definition ok_fixture :: yaml where
  "ok_fixture =
     JObj () [(''statusCode'', JNum 200),
              (''headers'', JObj () [(''Content-Type'', JStr ''application/json'')]),
              (''body'', JStr ''{}'')]"

definition step_with :: "string \<Rightarrow> unit props \<Rightarrow> yaml" where
  "step_with m resolution =
     JObj () ((''request'', JObj () [(''method'', JStr m),
                                    (''url'', JStr ''https://api.example.com/users?active=1'')])
              # resolution)"

section \<open>The fixture parser\<close>

definition LF :: char where
  "LF = CHR 0x0A"

definition CR :: char where
  "CR = CHR 0x0D"

text \<open>\<^verbatim>\<open>raw.replace(/\r\n/g, '\n')\<close>: one pass from the left, each CR LF pair becomes LF.\<close>

fun crlf_to_lf :: "string \<Rightarrow> string" where
  "crlf_to_lf [] = []"
| "crlf_to_lf [c] = [c]"
| "crlf_to_lf (c # d # cs) =
     (if c = CR \<and> d = LF then LF # crlf_to_lf cs else c # crlf_to_lf (d # cs))"

text \<open>\<^verbatim>\<open>s.indexOf(needle)\<close>, with \<open>None\<close> for \<^verbatim>\<open>-1\<close>.\<close>

fun index_of :: "string \<Rightarrow> string \<Rightarrow> nat option" where
  "index_of needle [] = (if needle = [] then Some 0 else None)"
| "index_of needle (c # cs) =
     (if prefix needle (c # cs) then Some 0 else map_option Suc (index_of needle cs))"

text \<open>\<^verbatim>\<open>s.split(sep)\<close> for a separator of one character.\<close>

fun split_on :: "char \<Rightarrow> string \<Rightarrow> string list" where
  "split_on sep [] = [[]]"
| "split_on sep (c # cs) =
     (if c = sep then [] # split_on sep cs
      else (case split_on sep cs of l # ls \<Rightarrow> (c # l) # ls | [] \<Rightarrow> [[c]]))"

text \<open>
  \<^verbatim>\<open>s.trim()\<close>: the white space and line terminators among the code units below 256 are
  tab, line feed, vertical tab, form feed, carriage return, space and no-break space.
\<close>

definition is_space :: "char \<Rightarrow> bool" where
  "is_space c = ((of_char c :: nat) \<in> {9, 10, 11, 12, 13, 32, 160})"

definition trim :: "string \<Rightarrow> string" where
  "trim s = rev (dropWhile is_space (rev (dropWhile is_space s)))"

text \<open>
  The match of \<^verbatim>\<open>/^HTTP\/[\d.]+ (\d{3})/\<close> against the status line, giving the three digits
  captured. The class \<^verbatim>\<open>[\d.]\<close> does not contain the space, so the only way to match is with
  the longest run of digits and dots, followed by a space and three digits.
\<close>

definition is_digit :: "char \<Rightarrow> bool" where
  "is_digit c = (48 \<le> (of_char c :: nat) \<and> (of_char c :: nat) \<le> 57)"

definition status_match :: "string \<Rightarrow> string option" where
  "status_match line =
     (if prefix ''HTTP/'' line then
        (let rest = drop 5 line;
             version = takeWhile (\<lambda>c. is_digit c \<or> c = CHR ''.'') rest;
             after = dropWhile (\<lambda>c. is_digit c \<or> c = CHR ''.'') rest
         in if version \<noteq> [] \<and> prefix '' '' after \<and> length (take 3 (tl after)) = 3 \<and>
               list_all is_digit (take 3 (tl after))
            then Some (take 3 (tl after)) else None)
      else None)"

text \<open>\<^verbatim>\<open>parseInt(digits, 10)\<close> on a string of decimal digits.\<close>

definition parse_dec :: "string \<Rightarrow> nat" where
  "parse_dec ds = foldl (\<lambda>n c. 10 * n + (of_char c - 48)) 0 ds"

text \<open>
  One round of the header loop. The headers are the properties of a plain object, kept here
  in the order of their first assignment (JavaScript lists keys that are array indices
  first; the mapping is the same). An assignment to the key \<^verbatim>\<open>__proto__\<close> of a plain object
  with a string value does nothing.
\<close>

definition add_header :: "(string \<times> string) list \<Rightarrow> string \<Rightarrow> (string \<times> string) list" where
  "add_header hs line =
     (if line = [] then hs
      else
        (case index_of '':'' line of
           None \<Rightarrow> hs
         | Some colonIndex \<Rightarrow>
             (let name = trim (take colonIndex line);
                  val = trim (drop (colonIndex + 1) line)
              in if name = ''__proto__'' then hs else AList.update name val hs)))"

record fixture =
  statusCode :: nat
  headers :: "(string \<times> string) list"
  body :: string

definition parseFixtureString :: "string \<Rightarrow> unit exn + fixture" where
  "parseFixtureString raw =
     (let normalised = crlf_to_lf raw;
          separatorIndex = index_of [LF, LF] normalised;
          headerSection = (case separatorIndex of None \<Rightarrow> normalised | Some i \<Rightarrow> take i normalised);
          content = (case separatorIndex of None \<Rightarrow> [] | Some i \<Rightarrow> drop (i + 2) normalised);
          headerLines = split_on LF headerSection;
          statusLine = hd headerLines
      in
      case status_match statusLine of
        None \<Rightarrow>
          Inl (Error (''Invalid HTTP fixture: expected status line, got \"'' @ statusLine @ ''\"''))
      | Some code \<Rightarrow>
          Inr \<lparr>statusCode = parse_dec code,
               headers = foldl add_header [] (tl headerLines),
               body = content\<rparr>)"

subsection \<open>Writing a fixture back\<close>

text \<open>The status code in three digits, and a header as \<^verbatim>\<open>Name: value\<close>.\<close>

definition show_status :: "nat \<Rightarrow> string" where
  "show_status n = [digit (n div 100 mod 10), digit (n div 10 mod 10), digit (n mod 10)]"

definition header_line :: "string \<times> string \<Rightarrow> string" where
  "header_line h = fst h @ '': '' @ snd h"

text \<open>
  Modelled from the spec: the repository has no function that writes a fixture back to text,
  and the round trip is stated against one. It is written as the words say: the status line,
  then each header as \<^verbatim>\<open>Name: value\<close> on a line of its own, then a blank line, then the body
  verbatim. The status line is \<^verbatim>\<open>HTTP/1.1\<close> and the code in three digits; lines end with a
  line feed.
\<close>

definition serialize_fixture :: "fixture \<Rightarrow> string" where
  "serialize_fixture fx =
     ''HTTP/1.1 '' @ show_status (statusCode fx) @ [LF]
       @ concat (map (\<lambda>h. header_line h @ [LF]) (headers fx)) @ [LF] @ body fx"

text \<open>No two line feeds in a row, and no line feed at the end.\<close>

fun no_blank_line :: "string \<Rightarrow> bool" where
  "no_blank_line [] = True"
| "no_blank_line [c] = (c \<noteq> LF)"
| "no_blank_line (c # d # cs) = (\<not> (c = LF \<and> d = LF) \<and> no_blank_line (d # cs))"

text \<open>
  What every parsed list of headers satisfies: the names are distinct, none is
  \<^verbatim>\<open>__proto__\<close>, names and values are trimmed and free of line feeds, and no name contains a
  colon.
\<close>

definition header_ok :: "string \<times> string \<Rightarrow> bool" where
  "header_ok h =
     (fst h \<noteq> ''__proto__'' \<and> trim (fst h) = fst h \<and> trim (snd h) = snd h \<and>
      LF \<notin> set (fst h) \<and> LF \<notin> set (snd h) \<and> CHR '':'' \<notin> set (fst h))"

definition headers_ok :: "(string \<times> string) list \<Rightarrow> bool" where
  "headers_ok hs = (distinct (map fst hs) \<and> list_all header_ok hs)"

subsection \<open>Example fixtures\<close>

definition rate_limit_raw :: string where
  "rate_limit_raw =
     ''HTTP/1.1 429 Too Many Requests'' @ [CR, LF]
       @ ''Content-Type: application/json'' @ [CR, LF]
       @ ''Retry-After:30'' @ [CR, LF] @ [CR, LF]
       @ ''{\"error\":\"rate limit\"}'' @ [LF, LF] @ ''trailer''"

text \<open>A body in which a carriage return comes before a CR LF pair.\<close>

definition double_cr_raw :: string where
  "double_cr_raw = ''HTTP/1.1 200 OK'' @ [LF, LF] @ ''ab'' @ [CR, CR, LF] @ ''cd''"

section \<open>Basic facts about values\<close>

lemma lookup_Nil [simp]: "lookup [] key = JUndefined"
  by (simp add: lookup_def)

lemma lookup_Cons [simp]: "lookup ((k, v) # ps) key = (if key = k then v else lookup ps key)"
  by (simp add: lookup_def)

lemma lookup_update [simp]: "lookup (AList.update k v ps) key = (if key = k then v else lookup ps key)"
  by (simp add: lookup_def update_conv')

lemma map_of_merge_props_rev: "map_of (merge_props a b) = map_of a ++ map_of (rev b)"
proof -
  have "map_of (foldl (\<lambda>acc (k, v). AList.update k v acc) a b) = map_of a ++ map_of (rev b)"
    for a :: "'a props"
  proof (induction b arbitrary: a)
    case Nil
    show ?case by simp
  next
    case (Cons p b)
    obtain k v where p: "p = (k, v)" by (cases p)
    have "map_of (foldl (\<lambda>acc (k, v). AList.update k v acc) a (p # b))
        = map_of (foldl (\<lambda>acc (k, v). AList.update k v acc) (AList.update k v a) b)"
      by (simp add: p)
    also have "\<dots> = map_of (AList.update k v a) ++ map_of (rev b)" by (rule Cons.IH)
    also have "\<dots> = (map_of a)(k \<mapsto> v) ++ map_of (rev b)" by (simp only: update_conv')
    also have "\<dots> = (map_of a ++ [k \<mapsto> v]) ++ map_of (rev b)" by simp
    also have "\<dots> = map_of a ++ ([k \<mapsto> v] ++ map_of (rev b))" by (simp only: map_add_assoc)
    also have "\<dots> = map_of a ++ map_of (rev (p # b))" by (simp add: p)
    finally show ?case .
  qed
  then show ?thesis by (simp add: merge_props_def)
qed

lemma map_of_rev_distinct: "distinct (map fst b) \<Longrightarrow> map_of (rev b) = map_of b"
proof (induction b)
  case Nil
  show ?case by simp
next
  case (Cons p b)
  obtain k v where p: "p = (k, v)" by (cases p)
  have "map_of b k = None"
    using Cons.prems by (simp add: p map_of_eq_None_iff)
  then have "[k \<mapsto> v] ++ map_of b = (map_of b)(k \<mapsto> v)"
    by (auto simp: map_add_def fun_eq_iff split: option.splits)
  then show ?case
    using Cons by (simp add: p)
qed

lemma map_of_merge_props:
  "distinct (map fst b) \<Longrightarrow> map_of (merge_props a b) = map_of a ++ map_of b"
  by (simp add: map_of_merge_props_rev map_of_rev_distinct)

lemma lookup_merge_props:
  "distinct (map fst b) \<Longrightarrow>
   lookup (merge_props a b) key = (case map_of b key of Some v \<Rightarrow> v | None \<Rightarrow> lookup a key)"
  by (simp add: lookup_def map_of_merge_props map_add_def split: option.splits)

section \<open>Properties of the assertion engine\<close>

subsection \<open>The returns loop\<close>

lemma returns_loop_ok:
  "returns_loop what result entries = Inr res \<longleftrightarrow>
     res = result \<and> (\<forall>(k, v) \<in> set entries. \<exists>a. get_prop result k = Inr a \<and> strict_eq a v)"
proof (induction entries)
  case Nil
  show ?case by auto
next
  case (Cons p entries)
  obtain k v where p: "p = (k, v)" by (cases p)
  show ?case
  proof (cases "get_prop result k")
    case (Inl x)
    then show ?thesis by (simp add: p)
  next
    case (Inr a)
    then show ?thesis using Cons.IH by (cases "strict_eq a v") (auto simp: p)
  qed
qed

lemma returns_loop_first_mismatch:
  assumes "\<forall>(k', v') \<in> set pre. \<exists>a'. get_prop result k' = Inr a' \<and> strict_eq a' v'"
    and "get_prop result k = Inr a" and "\<not> strict_eq a v"
  shows "returns_loop what result (pre @ (k, v) # post) = Inl (Error (mismatch_message what k v a))"
  using assms by (induction pre) auto

lemma returns_loop_cong:
  assumes "\<forall>(k, v) \<in> set entries. get_prop result' k = get_prop result k"
  shows "map_sum id (\<lambda>_. ()) (returns_loop what result' entries)
       = map_sum id (\<lambda>_. ()) (returns_loop what result entries)"
  using assms by (induction entries) (auto split: sum.splits)

lemma assert_returns_ok:
  assumes "object_entries expected = Inr entries"
  shows "assert_returns what fn expected log = (Inr res, log') \<longleftrightarrow>
     fn log = (Resolved res, log') \<and>
     (\<forall>(k, v) \<in> set entries. \<exists>a. get_prop res k = Inr a \<and> strict_eq a v)"
  using assms
  by (auto simp: assert_returns_def returns_loop_ok split: prod.splits outcome.splits)

lemma assert_returns_first_mismatch:
  assumes "object_entries expected = Inr (pre @ (k, v) # post)"
    and "fn log = (Resolved result, log')"
    and "\<forall>(k', v') \<in> set pre. \<exists>a'. get_prop result k' = Inr a' \<and> strict_eq a' v'"
    and "get_prop result k = Inr a" and "\<not> strict_eq a v"
  shows "assert_returns what fn expected log = (Inl (Error (mismatch_message what k v a)), log')"
  using assms by (simp add: assert_returns_def returns_loop_first_mismatch)

lemma assert_returns_same_keys:
  assumes "object_entries expected = Inr entries"
    and "fn log = (Resolved result, log')"
    and "fn' log = (Resolved result', log')"
    and "\<forall>(k, v) \<in> set entries. get_prop result' k = get_prop result k"
  shows "map_sum id (\<lambda>_. ()) (fst (assert_returns what fn' expected log))
       = map_sum id (\<lambda>_. ()) (fst (assert_returns what fn expected log))"
  using assms by (simp add: assert_returns_def returns_loop_cong)

text \<open>
  C2. Let \<open>entries\<close> be the entries of the expected mapping, in the order of
  \<^verbatim>\<open>Object.entries\<close>. \<^verbatim>\<open>assertInvokeReturns\<close> succeeds, returning the result, exactly when the
  call resolves and at every expected key the result holds a value that is \<^verbatim>\<open>===\<close> to the
  expected one. At the first key, in that order, whose value differs it throws an Error whose
  message names the key, the expected value and the actual value. The verdict depends on the
  result only through the expected keys, so further keys of the result are ignored. Equality
  is by reference on objects: two objects with the same content and different references are
  not equal. \<^verbatim>\<open>assertErrorReturns\<close> follows the same rule, with its own opening words.
\<close>

theorem returns_matching:
  assumes "object_entries expected = Inr entries"
  shows
    "(assertInvokeReturns fn expected log = (Inr res, log') \<longleftrightarrow>
        fn log = (Resolved res, log') \<and>
        (\<forall>(k, v) \<in> set entries. \<exists>a. get_prop res k = Inr a \<and> strict_eq a v))
     \<and> (assertErrorReturns fn expected log = (Inr res, log') \<longleftrightarrow>
        fn log = (Resolved res, log') \<and>
        (\<forall>(k, v) \<in> set entries. \<exists>a. get_prop res k = Inr a \<and> strict_eq a v))
     \<and> (fn log = (Resolved result, log') \<and> entries = pre @ (k, v) # post \<and>
        (\<forall>(k', v') \<in> set pre. \<exists>a'. get_prop result k' = Inr a' \<and> strict_eq a' v') \<and>
        get_prop result k = Inr a \<and> \<not> strict_eq a v \<longrightarrow>
          assertInvokeReturns fn expected log =
            (Inl (Error (''Expected invoke result.'' @ k @ '' to be '' @ render (JSON_stringify v)
                         @ '', got '' @ render (JSON_stringify a))), log') \<and>
          assertErrorReturns fn expected log =
            (Inl (Error (''Expected error handler result.'' @ k @ '' to be ''
                         @ render (JSON_stringify v) @ '', got '' @ render (JSON_stringify a))), log'))
     \<and> (fn log = (Resolved result, log') \<and> fn' log = (Resolved result', log') \<and>
        (\<forall>(k, v) \<in> set entries. get_prop result' k = get_prop result k) \<longrightarrow>
          map_sum id (\<lambda>_. ()) (fst (assertInvokeReturns fn' expected log))
            = map_sum id (\<lambda>_. ()) (fst (assertInvokeReturns fn expected log)) \<and>
          map_sum id (\<lambda>_. ()) (fst (assertErrorReturns fn' expected log))
            = map_sum id (\<lambda>_. ()) (fst (assertErrorReturns fn expected log)))
     \<and> (r \<noteq> r' \<longrightarrow> \<not> strict_eq (JObj r ps) (JObj r' ps))"
proof -
  have first: "fn log = (Resolved result, log') \<Longrightarrow> entries = pre @ (k, v) # post \<Longrightarrow>
      \<forall>(k', v') \<in> set pre. \<exists>a'. get_prop result k' = Inr a' \<and> strict_eq a' v' \<Longrightarrow>
      get_prop result k = Inr a \<Longrightarrow> \<not> strict_eq a v \<Longrightarrow>
      assert_returns what fn expected log = (Inl (Error (mismatch_message what k v a)), log')" for what
    using assms assert_returns_first_mismatch[of expected pre k v post fn log result log' a what]
    by simp
  have same: "fn log = (Resolved result, log') \<Longrightarrow> fn' log = (Resolved result', log') \<Longrightarrow>
      \<forall>(k, v) \<in> set entries. get_prop result' k = get_prop result k \<Longrightarrow>
      map_sum id (\<lambda>_. ()) (fst (assert_returns what fn' expected log))
        = map_sum id (\<lambda>_. ()) (fst (assert_returns what fn expected log))" for what
    using assms by (rule assert_returns_same_keys)
  show ?thesis
    using assert_returns_ok[OF assms, of "''invoke result''" fn log res log']
      assert_returns_ok[OF assms, of "''error handler result''" fn log res log']
      first[of "''invoke result''"] first[of "''error handler result''"]
      same[of "''invoke result''"] same[of "''error handler result''"]
    by (simp add: assertInvokeReturns_def assertErrorReturns_def mismatch_message_def)
qed

theorem returns_matching_witness:
  "object_entries suspend_expected = Inr [(''userId'', JStr ''usr123''), (''suspended'', JBool True)]
   \<and> assertInvokeReturns (call_invoke suspend_script [] ()) suspend_expected [] =
       (Inl (Error ''Expected invoke result.suspended to be true, got false''), [InvokeCall [] ()])
   \<and> assertErrorReturns (call_invoke suspend_script [] ()) suspend_expected [] =
       (Inl (Error ''Expected error handler result.suspended to be true, got false''),
        [InvokeCall [] ()])
   \<and> map_sum id (\<lambda>_. ()) (fst (assertInvokeReturns (call_invoke suspend_script [] ()) suspend_expected []))
       = map_sum id (\<lambda>_. ()) (fst (assertInvokeReturns (call_invoke plain_script [] ()) suspend_expected []))
   \<and> assertInvokeReturns (call_invoke suspend_script [] ()) (JObj 12 [(''userId'', JStr ''usr123'')]) [] =
       (Inr suspend_result, [InvokeCall [] ()])
   \<and> \<not> strict_eq (JObj (7::nat) []) (JObj 8 [])"
proof -
  let ?fn = "call_invoke suspend_script [] ()"
  let ?fn' = "call_invoke plain_script [] ()"
  let ?log' = "[InvokeCall [] ()] :: (nat, unit) call list"
  have e: "object_entries suspend_expected
      = Inr ([(''userId'', JStr ''usr123'')] @ (''suspended'', JBool True) # [])"
    by (simp add: object_entries_def suspend_expected_def)
  have e2: "object_entries (JObj (12::nat) [(''userId'', JStr ''usr123'')])
      = Inr [(''userId'', JStr ''usr123'')]"
    by (simp add: object_entries_def)
  have f: "?fn [] = (Resolved suspend_result, ?log')"
    by (simp add: call_invoke_def suspend_script_def)
  have f': "?fn' [] = (Resolved plain_result, ?log')"
    by (simp add: call_invoke_def plain_script_def)
  have pre: "\<forall>(k', v') \<in> set [(''userId'', JStr ''usr123'')].
      \<exists>a'. get_prop suspend_result k' = Inr a' \<and> strict_eq a' v'"
    by (simp add: suspend_result_def)
  have a: "get_prop suspend_result ''suspended'' = Inr (JBool False)"
    by (simp add: suspend_result_def)
  have ne: "\<not> strict_eq (JBool False :: nat jsval) (JBool True)" by simp
  have same: "\<forall>(k, v) \<in> set ([(''userId'', JStr ''usr123'')] @ (''suspended'', JBool True) # []).
      get_prop suspend_result k = get_prop plain_result k"
    by (simp add: suspend_result_def plain_result_def)
  have r: "(7::nat) \<noteq> 8" by simp
  note t1 = returns_matching[OF e, where fn = ?fn and log = "[]" and log' = ?log'
      and result = suspend_result and pre = "[(''userId'', JStr ''usr123'')]" and k = "''suspended''"
      and v = "JBool True" and post = "[]" and a = "JBool False" and r = 7 and r' = 8 and ps = "[]"]
  note t2 = returns_matching[OF e, where fn = ?fn' and log = "[]" and log' = ?log'
      and result = plain_result and fn' = ?fn and result' = suspend_result]
  note t3 = returns_matching[OF e2, where fn = ?fn and log = "[]" and res = suspend_result
      and log' = ?log']
  have m: "render (JSON_stringify (JBool True :: nat jsval)) = ''true''"
    "render (JSON_stringify (JBool False :: nat jsval)) = ''false''"
    by (simp_all add: render_def)
  have ok: "\<forall>(k, v) \<in> set [(''userId'', JStr ''usr123'')].
      \<exists>a. get_prop suspend_result k = Inr a \<and> strict_eq a v"
    by (simp add: suspend_result_def)
  show ?thesis
    using t1 t2 t3 e f f' pre a ne same r m ok by simp
qed

subsection \<open>The throws check\<close>







subsection \<open>The two phases\<close>

lemma assert_returns_log: "snd (assert_returns what fn expected log) = snd (fn log)"
  by (simp add: assert_returns_def split: prod.splits outcome.splits sum.splits)

lemma assert_throws_log: "snd (assert_throws who fn t log) = snd (fn log)"
  by (simp add: assert_throws_def Let_def split: prod.splits sum.splits)

lemma snd_discard: "snd (discard res) = snd res"
  by (simp add: discard_def split: prod.splits sum.splits)

lemma truthy_get_prop: "truthy x \<Longrightarrow> \<exists>v. get_prop x key = Inr v"
  by (cases x) auto

lemma error_phase_log:
  assumes "truthy errorExpect"
  shows "snd (error_phase handler params context errorExpect e log) =
     log @ (if is_expectation errorExpect
            then [ErrorCall (AList.update ''error'' e params) context] else [])"
proof -
  obtain r t where "get_prop errorExpect ''returns'' = Inr r" "get_prop errorExpect ''throws'' = Inr t"
    using truthy_get_prop[OF assms] by meson
  then show ?thesis
    using assms
    by (simp add: error_phase_def Let_def is_expectation_def snd_discard assertErrorReturns_def
        assertErrorThrows_def assert_returns_log assert_throws_log call_error_def)
qed

lemma assert_throws_caught:
  assumes "assert_throws who fn t log = (Inr caught, log')"
  shows "fn log = (Rejected caught, log')"
  using assms
  by (auto simp: assert_throws_def Let_def split: prod.splits sum.splits if_splits outcome.splits)

text \<open>
  C1. Take a scenario whose \<^verbatim>\<open>invoke\<close> expectation is of the \<^verbatim>\<open>throws\<close> form, a script whose
  \<^verbatim>\<open>invoke\<close> rejects with \<open>e\<close>, and let the message be acceptable, that is, let
  \<^verbatim>\<open>assertInvokeThrows\<close> succeed. Then \<^verbatim>\<open>runScenarioHandlers\<close> calls \<^verbatim>\<open>invoke\<close> once with the params
  and the context, and after it calls the script's error capability if and only if the
  scenario has an \<^verbatim>\<open>error\<close> expectation and the script has an error capability. The call is
  made once; its first argument is the params with the key \<^verbatim>\<open>error\<close> set to \<open>e\<close>, the very
  value that was caught, and its second argument is the context.
\<close>

theorem error_capability_called:
  assumes "get_prop scenario ''invoke'' = Inr invokeExpect"
    and "get_prop scenario ''error'' = Inr errorExpect"
    and "get_prop invokeExpect ''returns'' = Inr r" and "\<not> truthy r"
    and "get_prop invokeExpect ''throws'' = Inr t" and "t \<noteq> JUndefined"
    and "invoke scr params context = Rejected e"
    and "assertInvokeThrows (call_invoke scr params context) t log = (Inr caught, log')"
  shows "caught = e \<and>
    snd (runScenarioHandlers scr params context scenario log) =
      log @ [InvokeCall params context] @
        (if is_expectation errorExpect \<and> error scr \<noteq> None
         then [ErrorCall (AList.update ''error'' e params) context] else [])"
proof -
  have c: "call_invoke scr params context log = (Rejected caught, log')"
    using assms(8) by (simp add: assertInvokeThrows_def assert_throws_caught)
  then have ce: "caught = e" and l': "log' = log @ [InvokeCall params context]"
    using assms(7) by (auto simp: call_invoke_def)
  have nex: "\<not> truthy errorExpect \<Longrightarrow> \<not> is_expectation errorExpect"
    by (simp add: is_expectation_def)
  show ?thesis
    using assms(1-6,8) ce l' nex
    by (auto simp: runScenarioHandlers_def error_phase_log split: option.splits)
qed

theorem error_capability_called_witness:
  "assertInvokeThrows (call_invoke failing_script [(''userId'', JStr ''usr123'')] ())
       (JStr ''rate limit'') []
     = (Inr rate_limit_error, [InvokeCall [(''userId'', JStr ''usr123'')] ()])
   \<and> snd (runScenarioHandlers failing_script [(''userId'', JStr ''usr123'')] () rate_limited_scenario [])
     = [InvokeCall [(''userId'', JStr ''usr123'')] (),
        ErrorCall [(''userId'', JStr ''usr123''), (''error'', rate_limit_error)] ()]"
proof -
  let ?params = "[(''userId'', JStr ''usr123'')] :: nat props"
  let ?ie = "JObj (4::nat) [(''throws'', JStr ''rate limit'')]"
  let ?ee = "JObj (5::nat) [(''returns'', JObj 6 [(''status'', JStr ''retry_requested'')])]"
  have h1: "get_prop rate_limited_scenario ''invoke'' = Inr ?ie"
    and h2: "get_prop rate_limited_scenario ''error'' = Inr ?ee"
    by (simp_all add: rate_limited_scenario_def)
  have h3: "get_prop ?ie ''returns'' = Inr JUndefined" and h4: "\<not> truthy (JUndefined :: nat jsval)"
    and h5: "get_prop ?ie ''throws'' = Inr (JStr ''rate limit'')"
    and h6: "JStr ''rate limit'' \<noteq> (JUndefined :: nat jsval)"
    by simp_all
  have h7: "invoke failing_script ?params () = Rejected rate_limit_error"
    by (simp add: failing_script_def)
  have sub: "sublist ''rate limit'' ''HTTP 429 rate limit''"
    by (simp add: sublist_code)
  have h8: "assertInvokeThrows (call_invoke failing_script ?params ()) (JStr ''rate limit'') []
      = (Inr rate_limit_error, [InvokeCall ?params ()])"
    using sub
    by (simp add: assertInvokeThrows_def assert_throws_def call_invoke_def failing_script_def
        rate_limit_error_def)
  have ex: "is_expectation ?ee" by (simp add: is_expectation_def)
  have sc: "error failing_script \<noteq> None" by (simp add: failing_script_def)
  show ?thesis
    using error_capability_called[OF h1 h2 h3 h4 h5 h6 h7 h8] h8 ex sc by simp
qed

text \<open>
  C9. When the scenario's \<^verbatim>\<open>invoke\<close> expectation has neither a truthy \<^verbatim>\<open>returns\<close> value nor a
  \<^verbatim>\<open>throws\<close> key (an empty mapping, or \<^verbatim>\<open>returns\<close> bound to a falsy value),
  \<^verbatim>\<open>runScenarioHandlers\<close> returns normally and the call log is unchanged: neither capability
  of the script is called and nothing is raised, so the scenario passes vacuously.
\<close>

theorem runScenarioHandlers_vacuous:
  assumes "get_prop scenario ''invoke'' = Inr invokeExpect"
    and "get_prop invokeExpect ''returns'' = Inr r" and "\<not> truthy r"
    and "get_prop invokeExpect ''throws'' = Inr JUndefined"
  shows "runScenarioHandlers scr params context scenario log = (Inr (), log)"
proof -
  obtain errorExpect where "get_prop scenario ''error'' = Inr errorExpect"
    using assms(1) by (cases scenario) auto
  with assms show ?thesis
    by (simp add: runScenarioHandlers_def)
qed

theorem runScenarioHandlers_vacuous_witness:
  "get_prop empty_invoke_scenario ''invoke'' = Inr (JObj 10 [])
   \<and> runScenarioHandlers suspend_script [] () empty_invoke_scenario [] = (Inr (), [])
   \<and> runScenarioHandlers suspend_script [] ()
        (JObj 13 [(''invoke'', JObj 14 [(''returns'', JNum 0)])]) [] = (Inr (), [])"
proof -
  have h1: "get_prop empty_invoke_scenario ''invoke'' = Inr (JObj 10 [])"
    by (simp add: empty_invoke_scenario_def)
  have h2: "get_prop (JObj (10::nat) []) ''returns'' = Inr JUndefined"
    and h3: "\<not> truthy (JUndefined :: nat jsval)"
    and h4: "get_prop (JObj (10::nat) []) ''throws'' = Inr JUndefined"
    by simp_all
  let ?ie = "JObj (14::nat) [(''returns'', JNum 0)]"
  have k1: "get_prop (JObj (13::nat) [(''invoke'', ?ie)]) ''invoke'' = Inr ?ie"
    and k2: "get_prop ?ie ''returns'' = Inr (JNum 0)" and k3: "\<not> truthy (JNum 0 :: nat jsval)"
    and k4: "get_prop ?ie ''throws'' = Inr JUndefined"
    by simp_all
  show ?thesis
    using runScenarioHandlers_vacuous[OF h1 h2 h3 h4, of suspend_script "[]" "()" "[]"]
      runScenarioHandlers_vacuous[OF k1 k2 k3 k4, of suspend_script "[]" "()" "[]"] h1
    by simp
qed

section \<open>Properties of the scenario parser\<close>

lemma map_scenarios_append:
  assumes "map_scenarios pre i = Inr done"
  shows "map_scenarios (pre @ rest) i =
     (case map_scenarios rest (i + length pre) of Inl x \<Rightarrow> Inl x | Inr ns \<Rightarrow> Inr (done @ ns))"
  using assms
proof (induction pre arbitrary: i "done")
  case Nil
  then show ?case by (auto split: sum.splits)
next
  case (Cons s pre)
  then show ?case by (auto split: sum.splits)
qed

lemma all_less_Suc: "(\<forall>j < Suc n. P j) \<longleftrightarrow> P 0 \<and> (\<forall>j < n. P (Suc j))"
  by (auto simp: less_Suc_eq_0_disj)

lemma map_scenarios_sound:
  "map_scenarios ss i = Inr user \<Longrightarrow>
     list_all2 (\<lambda>s u. normaliseScenario s = Inr u) ss user \<and>
     (\<forall>j < length ss. validateScenario (ss ! j) (i + j) = Inr ())"
proof (induction ss arbitrary: i user)
  case Nil
  then show ?case by auto
next
  case (Cons s ss)
  from Cons.prems obtain n ns where v: "validateScenario s i = Inr ()"
    and n: "normaliseScenario s = Inr n" and ns: "map_scenarios ss (Suc i) = Inr ns"
    and u: "user = n # ns"
    by (auto split: sum.splits)
  from Cons.IH[OF ns] show ?case
    by (simp add: all_less_Suc v n u)
qed

lemma map_scenarios_complete:
  "list_all2 (\<lambda>s u. normaliseScenario s = Inr u) ss user \<Longrightarrow>
   \<forall>j < length ss. validateScenario (ss ! j) (i + j) = Inr () \<Longrightarrow>
   map_scenarios ss i = Inr user"
proof (induction ss user arbitrary: i rule: list_all2_induct)
  case Nil
  show ?case by simp
next
  case (Cons s ss u us)
  have "\<forall>j < length ss. validateScenario (ss ! j) (Suc i + j) = Inr ()"
    using Cons.prems by (simp add: all_less_Suc)
  then have "map_scenarios ss (Suc i) = Inr us" by (rule Cons.IH)
  moreover have "validateScenario s i = Inr ()"
    using Cons.prems by (simp add: all_less_Suc)
  ultimately show ?case
    using Cons.hyps(1) by simp
qed

lemma same_value_zero_JStr [simp]: "same_value_zero x (JStr n) \<longleftrightarrow> x = JStr n"
  by (cases x) (auto simp: same_value_zero_def)







lemma parse_success:
  assumes "get_prop (if options = JUndefined then JObj () [] else options) ''includeCommon'' = Inr given"
    and "get_prop doc ''action'' = Inr act" and "truthy act"
    and "get_prop doc ''scenarios'' = Inr (JArr r ss)" and "ss \<noteq> []"
    and "map_scenarios ss 0 = Inr user"
  shows "parseScenariosString doc options =
     (if truthy given then
        (case template_request user of
           Inl x \<Rightarrow> Inl x
         | Inr templateRequest \<Rightarrow>
             (case add_common (map (\<lambda>s. lookup s ''name'') user) templateRequest
                     COMMON_SCENARIOS user of
                Inl x \<Rightarrow> Inl x
              | Inr allScenarios \<Rightarrow> Inr \<lparr>action = act, scenarios = allScenarios\<rparr>))
      else Inr \<lparr>action = act, scenarios = user\<rparr>)"
  using assms by (cases given) (simp_all add: parseScenariosString_def)






lemma example_doc_facts:
  "get_prop example_doc ''action'' = Inr example_action"
  "truthy example_action"
  "get_prop example_doc ''scenarios'' = Inr (JArr () [shorthand_scenario, own_401_scenario])"
  "\<forall>j < length [shorthand_scenario, own_401_scenario].
      validateScenario ([shorthand_scenario, own_401_scenario] ! j) j = Inr ()"
  "list_all2 (\<lambda>s u. normaliseScenario s = Inr u) [shorthand_scenario, own_401_scenario]
      [shorthand_normalised, own_401_normalised]"
  by (simp_all add: example_doc_def example_action_def all_less_Suc validateScenario_def
      normaliseScenario_def shorthand_scenario_def own_401_scenario_def shorthand_normalised_def
      own_401_normalised_def Let_def suspend_request_def)



text \<open>
  C10. \<^verbatim>\<open>parseScenariosString\<close> called without options, or with options that lack
  \<^verbatim>\<open>includeCommon\<close>, behaves as with \<^verbatim>\<open>includeCommon: false\<close>, while \<^verbatim>\<open>runScenarios\<close> called
  without \<^verbatim>\<open>includeCommon\<close> parses with \<^verbatim>\<open>includeCommon: true\<close>. So the parser called directly
  without options returns, for a well-formed document, exactly the normalised user-defined
  scenarios and synthesizes nothing.
\<close>

theorem includeCommon_defaults:
  "parseScenariosString doc JUndefined
     = parseScenariosString doc (JObj () [(''includeCommon'', JBool False)])
   \<and> parseScenariosString doc (JObj () []) = parseScenariosString doc JUndefined
   \<and> (get_prop options ''includeCommon'' = Inr JUndefined \<longrightarrow>
        runScenarios options doc
          = parseScenariosString doc (JObj () [(''includeCommon'', JBool True)]))
   \<and> (get_prop doc ''action'' = Inr act \<and> truthy act \<and>
      get_prop doc ''scenarios'' = Inr (JArr r ss) \<and> ss \<noteq> [] \<and>
      (\<forall>j < length ss. validateScenario (ss ! j) j = Inr ()) \<and>
      list_all2 (\<lambda>s u. normaliseScenario s = Inr u) ss user \<longrightarrow>
        parseScenariosString doc JUndefined = Inr \<lparr>action = act, scenarios = user\<rparr>)"
proof -
  have a: "parseScenariosString doc JUndefined
      = parseScenariosString doc (JObj () [(''includeCommon'', JBool False)])"
    by (simp add: parseScenariosString_def)
  have b: "parseScenariosString doc (JObj () []) = parseScenariosString doc JUndefined"
    by (simp add: parseScenariosString_def)
  have c: "runScenarios options doc
      = parseScenariosString doc (JObj () [(''includeCommon'', JBool True)])"
    if "get_prop options ''includeCommon'' = Inr JUndefined"
    using that by (simp add: runScenarios_def parseScenarios_def)
  have d: "parseScenariosString doc JUndefined = Inr \<lparr>action = act, scenarios = user\<rparr>"
    if "get_prop doc ''action'' = Inr act" "truthy act"
      "get_prop doc ''scenarios'' = Inr (JArr r ss)" "ss \<noteq> []"
      "\<forall>j < length ss. validateScenario (ss ! j) j = Inr ()"
      "list_all2 (\<lambda>s u. normaliseScenario s = Inr u) ss user"
  proof -
    have user: "map_scenarios ss 0 = Inr user"
      using that(5,6) by (simp add: map_scenarios_complete)
    have opt: "get_prop (if (JUndefined :: yaml) = JUndefined then JObj () [] else JUndefined)
        ''includeCommon'' = Inr JUndefined" by simp
    show ?thesis
      using parse_success[OF opt that(1,2,3,4) user] by simp
  qed
  show ?thesis using a b c d by blast
qed

theorem includeCommon_defaults_witness:
  "parseScenariosString example_doc JUndefined
     = Inr \<lparr>action = example_action, scenarios = [shorthand_normalised, own_401_normalised]\<rparr>
   \<and> runScenarios (JObj () [(''script'', JStr ''../src/script.mjs''),
                           (''scenarios'', JStr ''./scenarios.yaml'')]) example_doc
     = parseScenariosString example_doc (JObj () [(''includeCommon'', JBool True)])"
proof -
  let ?opts = "JObj () [(''script'', JStr ''../src/script.mjs''),
                        (''scenarios'', JStr ''./scenarios.yaml'')] :: yaml"
  have o: "get_prop ?opts ''includeCommon'' = Inr JUndefined" by simp
  have ne: "[shorthand_scenario, own_401_scenario] \<noteq> []" by simp
  note t = includeCommon_defaults[of example_doc ?opts example_action "()"
      "[shorthand_scenario, own_401_scenario]" "[shorthand_normalised, own_401_normalised]"]
  have "parseScenariosString example_doc JUndefined
      = Inr \<lparr>action = example_action, scenarios = [shorthand_normalised, own_401_normalised]\<rparr>"
    using t ne example_doc_facts by blast
  moreover have "runScenarios ?opts example_doc
      = parseScenariosString example_doc (JObj () [(''includeCommon'', JBool True)])"
    using t o by blast
  ultimately show ?thesis by blast
qed

lemma parse_no_action:
  assumes "options \<noteq> JNull" and "get_prop doc ''action'' = Inr act" and "\<not> truthy act"
  shows "parseScenariosString doc options
     = Inl (Error ''scenarios.yaml must have an \"action\" section'')"
proof -
  obtain given where "get_prop (if options = JUndefined then JObj () [] else options)
      ''includeCommon'' = Inr given"
    using assms(1) by (cases options) auto
  then show ?thesis
    using assms(2,3) by (simp add: parseScenariosString_def)
qed

lemma parse_no_scenarios:
  assumes "options \<noteq> JNull" and "get_prop doc ''action'' = Inr act" and "truthy act"
    and "get_prop doc ''scenarios'' = Inr scs"
    and "\<not> truthy scs \<or> \<not> is_array scs \<or> elements scs = []"
  shows "parseScenariosString doc options
     = Inl (Error ''scenarios.yaml must have a \"scenarios\" array with at least one scenario'')"
proof -
  obtain given where "get_prop (if options = JUndefined then JObj () [] else options)
      ''includeCommon'' = Inr given"
    using assms(1) by (cases options) auto
  then show ?thesis
    using assms(2-5) by (auto simp: parseScenariosString_def)
qed

lemma parse_scenario_error:
  assumes "options \<noteq> JNull" and "get_prop doc ''action'' = Inr act" and "truthy act"
    and "get_prop doc ''scenarios'' = Inr (JArr r (pre @ s # post))"
    and "map_scenarios pre 0 = Inr done"
    and "validateScenario s (length pre) = Inl x \<or>
         (validateScenario s (length pre) = Inr () \<and> normaliseScenario s = Inl x)"
  shows "parseScenariosString doc options = Inl x"
proof -
  obtain given where g: "get_prop (if options = JUndefined then JObj () [] else options)
      ''includeCommon'' = Inr given"
    using assms(1) by (cases options) auto
  have "map_scenarios (pre @ s # post) 0 = Inl x"
    using assms(6) by (auto simp: map_scenarios_append[OF assms(5)])
  then show ?thesis
    using g assms(2-4) by (simp add: parseScenariosString_def)
qed

text \<open>
  C4, as the code orders the checks. The top-level checks come first: a missing \<^verbatim>\<open>action\<close>,
  then \<^verbatim>\<open>scenarios\<close> that are not a non-empty array. The scenarios are then checked one after
  the other, and the first entry that fails decides; for that entry (at index
  \<open>length pre\<close>, all earlier entries having passed) the order is \<^verbatim>\<open>name\<close>, then \<^verbatim>\<open>invoke\<close>,
  and only then \<^verbatim>\<open>steps\<close> or \<^verbatim>\<open>request\<close>, because \<^verbatim>\<open>validateScenario\<close> runs before
  \<^verbatim>\<open>normaliseScenario\<close>. Each failure is an Error whose message names the missing field. A
  scenario that lacks \<^verbatim>\<open>invoke\<close> is reported as lacking \<^verbatim>\<open>invoke\<close> whether or not it has steps
  or a request.
\<close>

theorem validation_order:
  assumes "options \<noteq> JNull" and "get_prop doc ''action'' = Inr act"
  shows
    "(\<not> truthy act \<longrightarrow>
        parseScenariosString doc options
          = Inl (Error ''scenarios.yaml must have an \"action\" section''))
     \<and> (truthy act \<and> get_prop doc ''scenarios'' = Inr scs \<and>
        (\<not> truthy scs \<or> \<not> is_array scs \<or> elements scs = []) \<longrightarrow>
        parseScenariosString doc options
          = Inl (Error ''scenarios.yaml must have a \"scenarios\" array with at least one scenario''))
     \<and> (truthy act \<and> get_prop doc ''scenarios'' = Inr (JArr r (pre @ JObj r' ps # post)) \<and>
        map_scenarios pre 0 = Inr done \<longrightarrow>
        (\<not> truthy (lookup ps ''name'') \<longrightarrow>
           parseScenariosString doc options
             = Inl (Error (''Scenario at index '' @ show_nat (length pre)
                           @ '' is missing required field \"name\"'')))
        \<and> (truthy (lookup ps ''name'') \<and> \<not> truthy (lookup ps ''invoke'') \<longrightarrow>
           parseScenariosString doc options
             = Inl (Error (''Scenario \"'' @ to_string (lookup ps ''name'')
                           @ ''\" is missing required field \"invoke\"'')))
        \<and> (truthy (lookup ps ''name'') \<and> truthy (lookup ps ''invoke'') \<and>
           \<not> truthy (lookup ps ''steps'') \<and> \<not> truthy (lookup ps ''request'') \<longrightarrow>
           parseScenariosString doc options
             = Inl (Error (''Scenario \"'' @ to_string (lookup ps ''name'')
                           @ ''\" must have either \"request\" or \"steps\"''))))"
proof -
  note e = parse_scenario_error[OF assms, of r pre "JObj r' ps" post "done"]
  show ?thesis
    using parse_no_action[OF assms] parse_no_scenarios[OF assms, of scs] e
    by (auto simp: validateScenario_def normaliseScenario_def)
qed

theorem validation_order_witness:
  "parseScenariosString no_steps_doc JUndefined
     = Inl (Error ''Scenario \"no steps\" must have either \"request\" or \"steps\"'')
   \<and> parseScenariosString nameless_doc JUndefined
     = Inl (Error ''Scenario at index 1 is missing required field \"name\"'')
   \<and> parseScenariosString (JObj () [(''scenarios'', JArr () [])]) JUndefined
     = Inl (Error ''scenarios.yaml must have an \"action\" section'')
   \<and> parseScenariosString (JObj () [(''action'', example_action), (''scenarios'', JArr () [])])
        JUndefined
     = Inl (Error ''scenarios.yaml must have a \"scenarios\" array with at least one scenario'')"
proof -
  have o: "(JUndefined :: yaml) \<noteq> JNull" by simp
  have pre: "map_scenarios [shorthand_scenario] 0 = Inr [shorthand_normalised]"
    using example_doc_facts(4,5) by (simp add: all_less_Suc)
  have one: "show_nat (length [shorthand_scenario]) = ''1''" by code_simp
  have a1: "get_prop no_steps_doc ''action'' = Inr example_action"
    and s1: "get_prop no_steps_doc ''scenarios''
        = Inr (JArr () ([shorthand_scenario] @
            JObj () [(''name'', JStr ''no steps''), (''invoke'', JObj () [(''throws'', JStr [])])] # []))"
    by (simp_all add: no_steps_doc_def no_steps_scenario_def)
  have a2: "get_prop nameless_doc ''action'' = Inr example_action"
    and s2: "get_prop nameless_doc ''scenarios''
        = Inr (JArr () ([shorthand_scenario] @
            JObj () [(''invoke'', JObj () [(''throws'', JStr [])])] # []))"
    by (simp_all add: nameless_doc_def)
  have a3: "get_prop (JObj () [(''scenarios'', JArr () [])] :: yaml) ''action'' = Inr JUndefined"
    by simp
  have a4: "get_prop (JObj () [(''action'', example_action), (''scenarios'', JArr () [])])
      ''action'' = Inr example_action"
    and s4: "get_prop (JObj () [(''action'', example_action), (''scenarios'', JArr () [])])
      ''scenarios'' = Inr (JArr () [])"
    by simp_all
  have t: "truthy example_action" by (rule example_doc_facts(2))
  note v1 = validation_order[OF o a1, where r = "()" and pre = "[shorthand_scenario]"
      and r' = "()" and post = "[]" and ps = "[(''name'', JStr ''no steps''),
        (''invoke'', JObj () [(''throws'', JStr [])])]" and ?done = "[shorthand_normalised]"]
  note v2 = validation_order[OF o a2, where r = "()" and pre = "[shorthand_scenario]"
      and r' = "()" and post = "[]" and ps = "[(''invoke'', JObj () [(''throws'', JStr [])])]"
      and ?done = "[shorthand_normalised]"]
  note v3 = validation_order[OF o a3]
  note v4 = validation_order[OF o a4, where scs = "JArr () []"]
  have c1: "parseScenariosString no_steps_doc JUndefined
     = Inl (Error ''Scenario \"no steps\" must have either \"request\" or \"steps\"'')"
    using v1 s1 pre t by simp
  have c2: "parseScenariosString nameless_doc JUndefined
     = Inl (Error ''Scenario at index 1 is missing required field \"name\"'')"
    using v2 s2 pre t one by simp
  have c3: "parseScenariosString (JObj () [(''scenarios'', JArr () [])]) JUndefined
     = Inl (Error ''scenarios.yaml must have an \"action\" section'')"
    using v3 by simp
  have c4: "parseScenariosString (JObj () [(''action'', example_action), (''scenarios'', JArr () [])])
        JUndefined
     = Inl (Error ''scenarios.yaml must have a \"scenarios\" array with at least one scenario'')"
    using v4 s4 t by simp
  show ?thesis using c1 c2 c3 c4 by blast
qed

text \<open>
  The specification has the check for \<^verbatim>\<open>steps\<close> or \<^verbatim>\<open>request\<close> before the check for \<^verbatim>\<open>invoke\<close>. A
  scenario that has only a name lacks all three, and the parser reports \<^verbatim>\<open>invoke\<close>.
\<close>

theorem validation_order_counterexample:
  "parseScenariosString incomplete_doc JUndefined
     = Inl (Error ''Scenario \"incomplete\" is missing required field \"invoke\"'')
   \<and> get_prop incomplete_scenario ''steps'' = Inr JUndefined
   \<and> get_prop incomplete_scenario ''request'' = Inr JUndefined
   \<and> get_prop incomplete_scenario ''invoke'' = Inr JUndefined"
  by (simp add: parseScenariosString_def incomplete_doc_def incomplete_scenario_def
      example_action_def validateScenario_def)

section \<open>Properties of the merge\<close>

text \<open>
  C6. \<^verbatim>\<open>mergeDefaults\<close> returns params and a context in which, for the params, for
  \<^verbatim>\<open>context.secrets\<close> and for \<^verbatim>\<open>context.environment\<close>, every key given at the scenario level
  has the scenario's value and every other key has the action's value, if it has one. The
  scenario's value is taken whole, whatever it is: nothing is merged below these three
  maps. In particular the action params \<^verbatim>\<open>{a:1, b:2}\<close> and the scenario params
  \<^verbatim>\<open>{b:3, c:4}\<close> give \<^verbatim>\<open>{a:1, b:3, c:4}\<close>. (The keys of an object are distinct.)
\<close>

theorem mergeDefaults_override:
  assumes "get_prop act ''params'' = Inr actionParams" and "get_prop act ''context'' = Inr declared"
    and "scenarioParams = spread (or_else (lookup scenario ''params'') (JObj () []))"
    and "actionContext = or_else declared (JObj () [])"
    and "scenarioContext = or_else (lookup scenario ''context'') (JObj () [])"
    and "scenarioSecrets = spread (or_else (read_prop scenarioContext ''secrets'') (JObj () []))"
    and "scenarioEnv = spread (or_else (read_prop scenarioContext ''environment'') (JObj () []))"
    and "distinct (map fst scenarioParams)" and "distinct (map fst scenarioSecrets)"
    and "distinct (map fst scenarioEnv)"
  shows "\<exists>params context secrets environment.
      mergeDefaults act scenario = Inr (params, context)
      \<and> (\<forall>k. map_of params k =
            (case map_of scenarioParams k of
               Some v \<Rightarrow> Some v
             | None \<Rightarrow> map_of (spread actionParams) k))
      \<and> lookup context ''secrets'' = JObj () secrets
      \<and> (\<forall>k. map_of secrets k =
            (case map_of scenarioSecrets k of
               Some v \<Rightarrow> Some v
             | None \<Rightarrow> map_of (spread (or_else (read_prop actionContext ''secrets'') (JObj () []))) k))
      \<and> lookup context ''environment'' = JObj () environment
      \<and> (\<forall>k. map_of environment k =
            (case map_of scenarioEnv k of
               Some v \<Rightarrow> Some v
             | None \<Rightarrow> map_of (spread (or_else (read_prop actionContext ''environment'') (JObj () []))) k))
      \<and> mergeDefaults (JObj () [(''params'', JObj () [(''a'', JNum 1), (''b'', JNum 2)])])
            [(''params'', JObj () [(''b'', JNum 3), (''c'', JNum 4)])]
          = Inr ([(''a'', JNum 1), (''b'', JNum 3), (''c'', JNum 4)],
                 [(''secrets'', JObj () []), (''environment'', JObj () [])])"
proof -
  have m: "map_of (merge_props a b) k = (case map_of b k of Some v \<Rightarrow> Some v | None \<Rightarrow> map_of a k)"
    if "distinct (map fst b)" for a b :: "unit props" and k
    using that by (simp add: map_of_merge_props map_add_def)
  have ex: "mergeDefaults (JObj () [(''params'', JObj () [(''a'', JNum 1), (''b'', JNum 2)])])
            [(''params'', JObj () [(''b'', JNum 3), (''c'', JNum 4)])]
          = Inr ([(''a'', JNum 1), (''b'', JNum 3), (''c'', JNum 4)],
                 [(''secrets'', JObj () []), (''environment'', JObj () [])])"
    by (simp add: mergeDefaults_def merge_props_def or_else_def read_prop_def Let_def)
  show ?thesis
    using assms(1,2) m[OF assms(8)] m[OF assms(9)] m[OF assms(10)] ex
    unfolding assms(3-7)
    by (simp add: mergeDefaults_def Let_def)
qed


theorem mergeDefaults_override_witness:
  "\<exists>params context secrets.
      mergeDefaults nested_action nested_scenario = Inr (params, context)
      \<and> map_of params ''filter'' = Some (JObj () [(''x'', JNum 9)])
      \<and> lookup context ''secrets'' = JObj () secrets
      \<and> map_of secrets ''API_TOKEN'' = Some (JStr ''expired'')
      \<and> map_of secrets ''OTHER'' = Some (JStr ''kept'')"
proof -
  let ?sp = "[(''filter'', JObj () [(''x'', JNum 9)])] :: unit props"
  let ?ac = "JObj () [(''secrets'', JObj () [(''API_TOKEN'', JStr ''test-token''),
                                              (''OTHER'', JStr ''kept'')])] :: yaml"
  let ?sc = "JObj () [(''secrets'', JObj () [(''API_TOKEN'', JStr ''expired'')])] :: yaml"
  let ?ss = "[(''API_TOKEN'', JStr ''expired'')] :: unit props"
  have h1: "get_prop nested_action ''params''
      = Inr (JObj () [(''filter'', JObj () [(''x'', JNum 1), (''y'', JNum 2)])])"
    and h2: "get_prop nested_action ''context'' = Inr ?ac"
    by (simp_all add: nested_action_def)
  have h3: "?sp = spread (or_else (lookup nested_scenario ''params'') (JObj () []))"
    and h5: "?sc = or_else (lookup nested_scenario ''context'') (JObj () [])"
    by (simp_all add: nested_scenario_def or_else_def)
  have h4: "?ac = or_else ?ac (JObj () [])" by (simp add: or_else_def)
  have h6: "?ss = spread (or_else (read_prop ?sc ''secrets'') (JObj () []))"
    and h7: "([] :: unit props) = spread (or_else (read_prop ?sc ''environment'') (JObj () []))"
    by (simp_all add: or_else_def read_prop_def)
  have d: "distinct (map fst ?sp)" "distinct (map fst ?ss)" "distinct (map fst ([] :: unit props))"
    by simp_all
  from mergeDefaults_override[OF h1 h2 h3 h4 h5 h6 h7 d]
  obtain ps ctx secs where r: "mergeDefaults nested_action nested_scenario = Inr (ps, ctx)"
    and p: "\<forall>k. map_of ps k =
            (case map_of ?sp k of
               Some v \<Rightarrow> Some v
             | None \<Rightarrow> map_of (spread (JObj () [(''filter'', JObj () [(''x'', JNum 1), (''y'', JNum 2)])])) k)"
    and c: "lookup ctx ''secrets'' = JObj () secs"
    and s: "\<forall>k. map_of secs k =
            (case map_of ?ss k of
               Some v \<Rightarrow> Some v
             | None \<Rightarrow> map_of (spread (or_else (read_prop ?ac ''secrets'') (JObj () []))) k)"
    by blast
  have "map_of ps ''filter'' = Some (JObj () [(''x'', JNum 9)])"
    using p by simp
  moreover have "map_of secs ''API_TOKEN'' = Some (JStr ''expired'')"
    and "map_of secs ''OTHER'' = Some (JStr ''kept'')"
    using s by (simp_all add: or_else_def read_prop_def)
  ultimately show ?thesis using r c by blast
qed

section \<open>Properties of the interception setup\<close>

lemma setupNock_loop_fail:
  assumes "\<forall>p \<in> set pre. \<exists>sc. install_step parse_url p = Inr sc"
    and "install_step parse_url step = Inl x"
  shows "setupNock_loop parse_url (pre @ step # post) scopes = Inl x"
  using assms by (induction pre arbitrary: scopes) auto

lemma setupNock_loop_ok:
  assumes "\<forall>s \<in> set steps. \<exists>sc. install_step parse_url s = Inr sc"
  shows "\<exists>new. setupNock_loop parse_url steps scopes = Inr (scopes @ new) \<and>
      length new = length steps \<and>
      (\<forall>i < length steps. install_step parse_url (steps ! i) = Inr (new ! i))"
  using assms
proof (induction steps arbitrary: scopes)
  case Nil
  show ?case by simp
next
  case (Cons s steps)
  then obtain sc where sc: "install_step parse_url s = Inr sc" by auto
  from Cons.IH[of "scopes @ [sc]"] Cons.prems
  obtain new where n: "setupNock_loop parse_url steps (scopes @ [sc]) = Inr ((scopes @ [sc]) @ new)"
    "length new = length steps"
    "\<forall>i < length steps. install_step parse_url (steps ! i) = Inr (new ! i)"
    by auto
  have "\<forall>i < length (s # steps). install_step parse_url ((s # steps) ! i) = Inr ((sc # new) ! i)"
    using n(3) sc by (simp add: all_less_Suc)
  then show ?case
    using n(1,2) sc by (intro exI[of _ "sc # new"]) simp
qed

lemma supported_verb_iff: "supported_verb m \<longleftrightarrow> map_of METHOD_MAP (toUpperCase m) \<noteq> None"
  by (simp add: supported_verb_def METHOD_MAP_def)

lemma install_step_cases:
  assumes "get_prop step ''request'' = Inr request"
    and "get_prop step ''fixtureData'' = Inr fixtureData"
    and "get_prop step ''networkError'' = Inr networkError"
    and "get_prop request ''url'' = Inr url" and "parse_url (to_string url) = Some (origin, path)"
    and "get_prop request ''method'' = Inr (JStr m)"
  shows "install_step parse_url step =
     (case map_of METHOD_MAP (toUpperCase m) of
        None \<Rightarrow> Inl (Error (''Unsupported HTTP method: '' @ m))
      | Some method \<Rightarrow>
          if truthy networkError then
            Inr (Interceptor origin method path
                   (if truthy (read_prop request ''headers'') then Some (read_prop request ''headers'')
                    else None)
                   (ReplyWithError ''Network error: connection refused''))
          else if truthy fixtureData then
            Inr (Interceptor origin method path
                   (if truthy (read_prop request ''headers'') then Some (read_prop request ''headers'')
                    else None)
                   (Reply (read_prop fixtureData ''statusCode'') (read_prop fixtureData ''body'')
                          (read_prop fixtureData ''headers'')))
          else Inl (Error (''Step for '' @ m @ '' '' @ to_string url
                           @ '' has no fixtureData or networkError'')))"
  using assms by (simp add: install_step_def Let_def split: option.splits)

text \<open>
  C7, as the code decides it. The steps are taken in order and the first step that cannot
  be installed ends the setup. For a step whose request has a url that parses and a verb
  \<open>m\<close>: if \<open>m\<close> in upper case is not one of GET, POST, PUT, PATCH, DELETE, HEAD, OPTIONS the
  setup fails with the Error for an unsupported method; if the verb is supported and the
  step has neither \<^verbatim>\<open>fixtureData\<close> nor \<^verbatim>\<open>networkError\<close> it fails with the Error for an
  unresolved step; otherwise an interceptor is registered for the url's origin and path
  under the verb's nock method, replying with the network error or with the fixture. When
  every step can be installed, the setup returns one handle for each step, in step order.
\<close>

theorem interceptor_installation:
  assumes "\<forall>p \<in> set pre. \<exists>sc. install_step parse_url p = Inr sc"
    and "get_prop step ''request'' = Inr request"
    and "get_prop step ''fixtureData'' = Inr fixtureData"
    and "get_prop step ''networkError'' = Inr networkError"
    and "get_prop request ''url'' = Inr url" and "parse_url (to_string url) = Some (origin, path)"
    and "get_prop request ''method'' = Inr (JStr m)"
  shows
    "(\<not> supported_verb m \<longrightarrow>
        setupNock parse_url (pre @ step # post) = Inl (Error (''Unsupported HTTP method: '' @ m)))
     \<and> (supported_verb m \<and> \<not> truthy networkError \<and> \<not> truthy fixtureData \<longrightarrow>
        setupNock parse_url (pre @ step # post)
          = Inl (Error (''Step for '' @ m @ '' '' @ to_string url
                        @ '' has no fixtureData or networkError'')))
     \<and> (supported_verb m \<and> (truthy networkError \<or> truthy fixtureData) \<longrightarrow>
        (\<exists>sc. install_step parse_url step = Inr sc \<and>
              scope_origin sc = origin \<and> scope_path sc = path \<and>
              map_of METHOD_MAP (toUpperCase m) = Some (nock_method sc) \<and>
              scope_reply sc =
                (if truthy networkError then ReplyWithError ''Network error: connection refused''
                 else Reply (read_prop fixtureData ''statusCode'') (read_prop fixtureData ''body'')
                            (read_prop fixtureData ''headers''))))
     \<and> ((\<forall>s \<in> set steps. \<exists>sc. install_step parse_url s = Inr sc) \<longrightarrow>
        (\<exists>scopes. setupNock parse_url steps = Inr scopes \<and> length scopes = length steps \<and>
           (\<forall>i < length steps. install_step parse_url (steps ! i) = Inr (scopes ! i))))"
proof -
  note c = install_step_cases[where parse_url = parse_url and step = step, OF assms(2-7)]
  have a: "setupNock parse_url (pre @ step # post) = Inl (Error (''Unsupported HTTP method: '' @ m))"
    if "\<not> supported_verb m"
    using that c setupNock_loop_fail[OF assms(1)]
    by (simp add: setupNock_def supported_verb_iff)
  have b: "setupNock parse_url (pre @ step # post)
          = Inl (Error (''Step for '' @ m @ '' '' @ to_string url
                        @ '' has no fixtureData or networkError''))"
    if "supported_verb m" "\<not> truthy networkError" "\<not> truthy fixtureData"
    using that c setupNock_loop_fail[OF assms(1)]
    by (auto simp: setupNock_def supported_verb_iff)
  have d: "\<exists>sc. install_step parse_url step = Inr sc \<and>
              scope_origin sc = origin \<and> scope_path sc = path \<and>
              map_of METHOD_MAP (toUpperCase m) = Some (nock_method sc) \<and>
              scope_reply sc =
                (if truthy networkError then ReplyWithError ''Network error: connection refused''
                 else Reply (read_prop fixtureData ''statusCode'') (read_prop fixtureData ''body'')
                            (read_prop fixtureData ''headers''))"
    if "supported_verb m" "truthy networkError \<or> truthy fixtureData"
    using that c by (auto simp: supported_verb_iff)
  have e: "\<exists>scopes. setupNock parse_url steps = Inr scopes \<and> length scopes = length steps \<and>
           (\<forall>i < length steps. install_step parse_url (steps ! i) = Inr (scopes ! i))"
    if "\<forall>s \<in> set steps. \<exists>sc. install_step parse_url s = Inr sc"
    using setupNock_loop_ok[OF that, of "[]"] by (simp add: setupNock_def)
  show ?thesis using a b d e by blast
qed

text \<open>
  The specification compares the verb as written. The code puts it in upper case first, so a step
  with the verb \<^verbatim>\<open>get\<close>, which is none of the seven names, is installed.
\<close>

lemma upper_get: "toUpperCase ''get'' = ''GET''"
  by code_simp

theorem interceptor_installation_counterexample:
  "setupNock users_url [step_with ''get'' [(''fixtureData'', ok_fixture)]]
     = Inr [Interceptor ''https://api.example.com'' ''get'' ''/users?active=1'' None
              (Reply (JNum 200) (JStr ''{}'') (JObj () [(''Content-Type'', JStr ''application/json'')]))]
   \<and> ''get'' \<notin> set [''GET'', ''POST'', ''PUT'', ''PATCH'', ''DELETE'', ''HEAD'', ''OPTIONS'']"
  by (simp add: setupNock_def install_step_def step_with_def users_url_def ok_fixture_def
      upper_get METHOD_MAP_def read_prop_def)


lemma upper_examples:
  "toUpperCase ''POST'' = ''POST''" "toUpperCase ''TRACE'' = ''TRACE''"
  by code_simp+

theorem interceptor_installation_witness:
  "setupNock users_url [step_with ''POST'' [(''fixtureData'', ok_fixture)],
                        step_with ''TRACE'' [(''fixtureData'', ok_fixture)]]
     = Inl (Error ''Unsupported HTTP method: TRACE'')
   \<and> setupNock users_url [step_with ''POST'' [(''fixtureData'', ok_fixture)], step_with ''get'' []]
     = Inl (Error ''Step for get https://api.example.com/users?active=1 has no fixtureData or networkError'')
   \<and> (\<exists>scopes. setupNock users_url [step_with ''POST'' [(''fixtureData'', ok_fixture)],
                                      step_with ''get'' [(''networkError'', JBool True)]] = Inr scopes
         \<and> length scopes = 2
         \<and> map nock_method scopes = [''post'', ''get'']
         \<and> map scope_reply scopes =
             [Reply (JNum 200) (JStr ''{}'') (JObj () [(''Content-Type'', JStr ''application/json'')]),
              ReplyWithError ''Network error: connection refused''])"
proof -
  let ?post = "step_with ''POST'' [(''fixtureData'', ok_fixture)]"
  let ?url = "JStr ''https://api.example.com/users?active=1'' :: yaml"
  let ?req = "\<lambda>m. JObj () [(''method'', JStr m), (''url'', ?url)] :: yaml"
  let ?net = "step_with ''get'' [(''networkError'', JBool True)]"
  have post: "install_step users_url ?post
      = Inr (Interceptor ''https://api.example.com'' ''post'' ''/users?active=1'' None
              (Reply (JNum 200) (JStr ''{}'') (JObj () [(''Content-Type'', JStr ''application/json'')])))"
    by (simp add: install_step_def step_with_def users_url_def ok_fixture_def upper_examples
        METHOD_MAP_def read_prop_def)
  have net: "install_step users_url ?net
      = Inr (Interceptor ''https://api.example.com'' ''get'' ''/users?active=1'' None
              (ReplyWithError ''Network error: connection refused''))"
    by (simp add: install_step_def step_with_def users_url_def upper_get METHOD_MAP_def
        read_prop_def)
  have pre: "\<forall>p \<in> set [?post]. \<exists>sc. install_step users_url p = Inr sc"
    using post by simp
  have all: "\<forall>s \<in> set [?post, ?net]. \<exists>sc. install_step users_url s = Inr sc"
    using post net by simp
  have r: "get_prop (step_with m res) ''request'' = Inr (?req m)" for m res
    by (simp add: step_with_def)
  have f1: "get_prop (step_with ''TRACE'' [(''fixtureData'', ok_fixture)]) ''fixtureData'' = Inr ok_fixture"
    and n1: "get_prop (step_with ''TRACE'' [(''fixtureData'', ok_fixture)]) ''networkError'' = Inr JUndefined"
    and f2: "get_prop (step_with ''get'' []) ''fixtureData'' = Inr JUndefined"
    and n2: "get_prop (step_with ''get'' []) ''networkError'' = Inr JUndefined"
    by (simp_all add: step_with_def)
  have u: "get_prop (?req m) ''url'' = Inr ?url" and m: "get_prop (?req m) ''method'' = Inr (JStr m)" for m
    by simp_all
  have p: "users_url (to_string ?url) = Some (''https://api.example.com'', ''/users?active=1'')"
    by (simp add: users_url_def)
  have v1: "\<not> supported_verb ''TRACE''" and v2: "supported_verb ''get''"
    by (simp_all add: supported_verb_def upper_examples upper_get)
  note t1 = interceptor_installation[where parse_url = users_url, OF pre r f1 n1 u p m,
      where post = "[]" and steps = "[?post, ?net]"]
  note t2 = interceptor_installation[where parse_url = users_url, OF pre r f2 n2 u p m,
      where post = "[]" and steps = "[?post, ?net]"]
  have c1: "setupNock users_url [?post, step_with ''TRACE'' [(''fixtureData'', ok_fixture)]]
     = Inl (Error ''Unsupported HTTP method: TRACE'')"
    using t1 v1 by simp
  have c2: "setupNock users_url [?post, step_with ''get'' []]
     = Inl (Error ''Step for get https://api.example.com/users?active=1 has no fixtureData or networkError'')"
    using t2 v2 by simp
  from t2 all obtain scopes where s: "setupNock users_url [?post, ?net] = Inr scopes"
    "length scopes = length [?post, ?net]"
    "\<forall>i < length [?post, ?net]. install_step users_url ([?post, ?net] ! i) = Inr (scopes ! i)"
    by blast
  then obtain a b where ab: "scopes = [a, b]"
    by (cases scopes; cases "tl scopes") auto
  have "install_step users_url ?post = Inr a" "install_step users_url ?net = Inr b"
    using s(3) by (simp_all add: ab all_less_Suc)
  then have "map nock_method scopes = [''post'', ''get'']"
    and "map scope_reply scopes =
             [Reply (JNum 200) (JStr ''{}'') (JObj () [(''Content-Type'', JStr ''application/json'')]),
              ReplyWithError ''Network error: connection refused'']"
    using post net by (auto simp: ab)
  then show ?thesis using c1 c2 s(1,2) by auto
qed

section \<open>Properties of the fixture parser\<close>

subsection \<open>Splitting and searching\<close>

lemma split_on_not_Nil: "split_on sep s \<noteq> []"
  by (induction s) (auto split: list.splits)

lemma split_on_no_sep: "l \<in> set (split_on sep s) \<Longrightarrow> sep \<notin> set l"
proof (induction s arbitrary: l)
  case Nil
  then show ?case by simp
next
  case (Cons c s)
  show ?case
  proof (cases "c = sep")
    case True
    then show ?thesis using Cons by auto
  next
    case False
    obtain k ks where k: "split_on sep s = k # ks"
      using split_on_not_Nil[of sep s] by (cases "split_on sep s") auto
    then show ?thesis using Cons False by auto
  qed
qed

lemma split_on_single: "sep \<notin> set s \<Longrightarrow> split_on sep s = [s]"
  by (induction s) auto

lemma split_on_append: "sep \<notin> set a \<Longrightarrow> split_on sep (a @ sep # b) = a # split_on sep b"
  by (induction a) auto

lemma split_on_lines:
  "LF \<notin> set s \<Longrightarrow> \<forall>l \<in> set ls. LF \<notin> set l \<Longrightarrow>
   split_on LF (s @ concat (map ((#) LF) ls)) = s # ls"
proof (induction ls arbitrary: s)
  case Nil
  then show ?case by (simp add: split_on_single)
next
  case (Cons l ls)
  have "split_on LF (s @ LF # (l @ concat (map ((#) LF) ls))) = s # split_on LF (l @ concat (map ((#) LF) ls))"
    using Cons.prems(1) by (rule split_on_append)
  then show ?case using Cons by simp
qed

lemma index_of_char: "c \<notin> set a \<Longrightarrow> index_of [c] (a @ c # b) = Some (length a)"
  by (induction a) auto

lemma index_of_char_Some:
  "index_of [c] s = Some i \<Longrightarrow> i < length s \<and> c \<notin> set (take i s)"
proof (induction s arbitrary: i)
  case Nil
  then show ?case by simp
next
  case (Cons d s)
  show ?case
  proof (cases "d = c")
    case True
    then show ?thesis using Cons.prems by simp
  next
    case False
    then obtain j where j: "index_of [c] s = Some j" "i = Suc j"
      using Cons.prems by auto
    then show ?thesis using Cons.IH[OF j(1)] False by simp
  qed
qed

lemma index_of_blank:
  "no_blank_line h \<Longrightarrow> index_of [LF, LF] (h @ LF # LF # rest) = Some (length h)"
proof (induction h rule: no_blank_line.induct)
  case 1
  show ?case by simp
next
  case (2 c)
  then show ?case by simp
next
  case (3 c d cs)
  then show ?case by auto
qed

lemma no_blank_line_no_LF: "LF \<notin> set s \<Longrightarrow> no_blank_line s"
  by (induction s rule: no_blank_line.induct) auto

lemma no_blank_line_append:
  "no_blank_line h \<Longrightarrow> h \<noteq> [] \<Longrightarrow> l \<noteq> [] \<Longrightarrow> LF \<notin> set l \<Longrightarrow> no_blank_line (h @ LF # l)"
proof (induction h rule: no_blank_line.induct)
  case 1
  then show ?case by simp
next
  case (2 c)
  then show ?case by (cases l) (auto simp: no_blank_line_no_LF)
next
  case (3 c d cs)
  then show ?case by simp
qed

lemma no_blank_line_lines:
  "no_blank_line s \<Longrightarrow> s \<noteq> [] \<Longrightarrow> \<forall>l \<in> set ls. l \<noteq> [] \<and> LF \<notin> set l \<Longrightarrow>
   no_blank_line (s @ concat (map ((#) LF) ls))"
proof (induction ls arbitrary: s)
  case Nil
  then show ?case by simp
next
  case (Cons l ls)
  have "no_blank_line (s @ LF # l)"
    using Cons.prems by (simp add: no_blank_line_append)
  then have "no_blank_line ((s @ LF # l) @ concat (map ((#) LF) ls))"
    using Cons.prems by (intro Cons.IH) auto
  then show ?case by simp
qed


subsection \<open>Line endings\<close>

lemma CR_neq_LF [simp]: "CR \<noteq> LF" "LF \<noteq> CR"
  by (simp_all add: CR_def LF_def)

lemma crlf_to_lf_id: "\<not> sublist [CR, LF] s \<Longrightarrow> crlf_to_lf s = s"
proof (induction s rule: crlf_to_lf.induct)
  case 1
  show ?case by simp
next
  case (2 c)
  show ?case by simp
next
  case (3 c d cs)
  have "\<not> (c = CR \<and> d = LF)"
    using 3(3) by (auto simp: sublist_Cons_right)
  moreover have "\<not> sublist [CR, LF] (d # cs)"
    using 3(3) by (auto simp: sublist_Cons_right)
  ultimately show ?case using 3 by auto
qed

lemma crlf_to_lf_no_LF: "LF \<notin> set s \<Longrightarrow> crlf_to_lf s = s"
  by (induction s rule: crlf_to_lf.induct) auto

lemma crlf_to_lf_append:
  "a = [] \<or> last a \<noteq> CR \<Longrightarrow> crlf_to_lf (a @ b) = crlf_to_lf a @ crlf_to_lf b"
proof (induction a rule: crlf_to_lf.induct)
  case 1
  show ?case by simp
next
  case (2 c)
  then show ?case by (cases b) auto
next
  case (3 c d cs)
  then show ?case by (auto split: if_splits)
qed

lemma crlf_to_lf_line:
  "LF \<notin> set l \<Longrightarrow> l = [] \<or> last l \<noteq> CR \<Longrightarrow> crlf_to_lf (l @ [LF]) = l @ [LF]"
  by (simp add: crlf_to_lf_append crlf_to_lf_no_LF)

lemma crlf_to_lf_lines:
  "\<forall>l \<in> set ls. LF \<notin> set l \<and> (l = [] \<or> last l \<noteq> CR) \<Longrightarrow>
   crlf_to_lf (concat (map (\<lambda>l. l @ [LF]) ls) @ rest) = concat (map (\<lambda>l. l @ [LF]) ls) @ crlf_to_lf rest"
proof (induction ls)
  case Nil
  show ?case by simp
next
  case (Cons l ls)
  have "crlf_to_lf ((l @ [LF]) @ (concat (map (\<lambda>l. l @ [LF]) ls) @ rest))
      = crlf_to_lf (l @ [LF]) @ crlf_to_lf (concat (map (\<lambda>l. l @ [LF]) ls) @ rest)"
    by (rule crlf_to_lf_append) simp
  then show ?case using Cons by (simp add: crlf_to_lf_line)
qed

subsection \<open>Trimming\<close>

lemma dropWhile_keeps_front:
  "dropWhile P (rev (dropWhile P (rev (dropWhile P s)))) = rev (dropWhile P (rev (dropWhile P s)))"
proof -
  let ?d = "dropWhile P s"
  let ?t = "dropWhile P (rev ?d)"
  have d: "?d = rev ?t @ rev (takeWhile P (rev ?d))"
    by (metis rev_append rev_rev_ident takeWhile_dropWhile_id)
  show ?thesis
  proof (cases "rev ?t")
    case Nil
    then show ?thesis by (metis dropWhile.simps(1))
  next
    case (Cons x xs)
    then obtain ys where ys: "?d = x # ys"
      using d by (metis append_Cons)
    have "\<not> P x"
      using hd_dropWhile[of P s] unfolding ys by simp
    then show ?thesis using Cons by simp
  qed
qed

lemma trim_idem: "trim (trim s) = trim s"
  by (simp add: trim_def dropWhile_keeps_front dropWhile_idem)

lemma set_trim: "set (trim s) \<subseteq> set s"
proof -
  have "set (dropWhile is_space (rev (dropWhile is_space s))) \<subseteq> set (rev (dropWhile is_space s))"
    by (rule set_dropWhileD[THEN subsetI])
  also have "\<dots> \<subseteq> set s"
    using set_dropWhileD[of _ is_space s] by auto
  finally show ?thesis by (simp add: trim_def)
qed

lemma trim_space_Cons: "is_space c \<Longrightarrow> trim (c # s) = trim s"
  by (simp add: trim_def)

lemma trimmed_last: "trim s = s \<Longrightarrow> s \<noteq> [] \<Longrightarrow> \<not> is_space (last s)"
proof -
  assume t: "trim s = s" and ne: "s \<noteq> []"
  let ?u = "rev (dropWhile is_space s)"
  have "rev s = dropWhile is_space ?u"
    using t by (metis rev_rev_ident trim_def)
  moreover have "rev s \<noteq> []" using ne by simp
  ultimately have "\<not> is_space (hd (rev s))"
    by (metis hd_dropWhile)
  then show ?thesis using ne by (simp add: hd_rev)
qed

lemma is_space_CR: "is_space CR"
  by (simp add: is_space_def CR_def)

lemma is_space_blank: "is_space CHR '' ''"
  by (simp add: is_space_def)

subsection \<open>The status line\<close>

lemma of_char_digit: "d < 10 \<Longrightarrow> (of_char (digit d) :: nat) = 48 + d"
  by (simp add: digit_def)

lemma is_digit_digit: "d < 10 \<Longrightarrow> is_digit (digit d)"
  by (simp add: is_digit_def of_char_digit)

lemma digit_not_LF: "d < 10 \<Longrightarrow> digit d \<noteq> LF"
proof
  assume "d < 10" and "digit d = LF"
  then have "(of_char (digit d) :: nat) = of_char LF" by simp
  then show False using \<open>d < 10\<close> by (simp add: of_char_digit LF_def)
qed

lemma parse_dec_digits:
  assumes "a < 10" and "b < 10" and "c < 10"
  shows "parse_dec [digit a, digit b, digit c] = 100 * a + 10 * b + c"
  using assms by (simp add: parse_dec_def of_char_digit)


lemma status_match_written:
  assumes "is_digit x" and "is_digit y" and "is_digit z"
  shows "status_match (''HTTP/1.1 '' @ [x, y, z]) = Some [x, y, z]"
proof -
  have d: "is_digit CHR ''1''" "\<not> is_digit CHR '' ''" "CHR '' '' \<noteq> CHR ''.''"
    by (simp_all add: is_digit_def)
  have r: "drop 5 (''HTTP/1.1 '' @ [x, y, z]) = ''1.1 '' @ [x, y, z]" by simp
  have t: "takeWhile (\<lambda>c. is_digit c \<or> c = CHR ''.'') (''1.1 '' @ [x, y, z]) = ''1.1''"
    using d by simp
  have w: "dropWhile (\<lambda>c. is_digit c \<or> c = CHR ''.'') (''1.1 '' @ [x, y, z]) = CHR '' '' # [x, y, z]"
    using d by simp
  have p: "prefix ''HTTP/'' (''HTTP/1.1 '' @ [x, y, z])" by simp
  show ?thesis
    unfolding status_match_def Let_def r t w using p assms by simp
qed


lemma three_digits:
  assumes "n < 1000"
  shows "100 * (n div 100 mod 10) + 10 * (n div 10 mod 10) + n mod 10 = (n::nat)"
proof -
  have "n div 100 < 10"
    using assms by (simp add: div_less_iff_less_mult)
  then have a: "n div 100 mod 10 = n div 100" by simp
  have b: "n mod 100 = 10 * (n div 10 mod 10) + n mod 10"
    using mod_mult2_eq[of n 10 10] by simp
  have "100 * (n div 100) + n mod 100 = n" by simp
  then show ?thesis using a b by simp
qed

lemma parse_dec_show_status: "n < 1000 \<Longrightarrow> parse_dec (show_status n) = n"
proof -
  assume n: "n < 1000"
  have "parse_dec (show_status n) = 100 * (n div 100 mod 10) + 10 * (n div 10 mod 10) + n mod 10"
    unfolding show_status_def by (rule parse_dec_digits) simp_all
  also have "\<dots> = n" using n by (rule three_digits)
  finally show ?thesis .
qed

lemma status_match_show_status:
  "status_match (''HTTP/1.1 '' @ show_status n) = Some (show_status n)"
  unfolding show_status_def by (rule status_match_written) (simp_all add: is_digit_digit)

lemma parse_dec_bound:
  assumes "length ds = 3" and "list_all is_digit ds"
  shows "parse_dec ds < 1000"
proof -
  obtain x y z where ds: "ds = [x, y, z]"
    using assms(1) by (auto simp: numeral_3_eq_3 length_Suc_conv)
  have "(of_char c :: nat) - 48 \<le> 9" if "is_digit c" for c
    using that unfolding is_digit_def by linarith
  then have "(of_char x :: nat) - 48 \<le> 9" "(of_char y :: nat) - 48 \<le> 9" "(of_char z :: nat) - 48 \<le> 9"
    using assms(2) by (simp_all add: ds)
  then show ?thesis by (simp add: ds parse_dec_def)
qed

lemma status_match_Some:
  "status_match line = Some code \<Longrightarrow> length code = 3 \<and> list_all is_digit code"
  by (auto simp: status_match_def Let_def split: if_splits)

subsection \<open>Headers\<close>

lemma update_new: "k \<notin> fst ` set hs \<Longrightarrow> AList.update k v hs = hs @ [(k, v)]"
  by (induction hs) auto

lemma list_all_update: "list_all P hs \<Longrightarrow> P (k, v) \<Longrightarrow> list_all P (AList.update k v hs)"
  by (induction hs) auto

lemma headers_ok_update: "headers_ok hs \<Longrightarrow> header_ok (k, v) \<Longrightarrow> headers_ok (AList.update k v hs)"
  by (simp add: headers_ok_def distinct_update list_all_update)

lemma add_header_ok:
  assumes "headers_ok hs" and "LF \<notin> set line"
  shows "headers_ok (add_header hs line)"
proof (cases "index_of '':'' line")
  case None
  then show ?thesis using assms(1) by (simp add: add_header_def)
next
  case (Some i)
  let ?name = "trim (take i line)"
  let ?val = "trim (drop (i + 1) line)"
  have i: "CHR '':'' \<notin> set (take i line)"
    using index_of_char_Some[OF Some] by simp
  have "set ?name \<subseteq> set (take i line)" by (rule set_trim)
  then have n: "CHR '':'' \<notin> set ?name" "LF \<notin> set ?name"
    using i assms(2) by (auto dest: in_set_takeD)
  have "set ?val \<subseteq> set (drop (i + 1) line)" by (rule set_trim)
  then have v: "LF \<notin> set ?val"
    using assms(2) by (auto dest: in_set_dropD)
  have "header_ok (?name, ?val)" if "?name \<noteq> ''__proto__''"
    using that n v by (simp add: header_ok_def trim_idem)
  then show ?thesis
    using assms(1) Some by (simp add: add_header_def Let_def headers_ok_update)
qed

lemma foldl_add_header_ok:
  "headers_ok acc \<Longrightarrow> \<forall>l \<in> set ls. LF \<notin> set l \<Longrightarrow> headers_ok (foldl add_header acc ls)"
  by (induction ls arbitrary: acc) (simp_all add: add_header_ok)

lemma add_header_line:
  assumes "header_ok h"
  shows "add_header hs (header_line h) = AList.update (fst h) (snd h) hs"
proof -
  let ?n = "fst h" and ?v = "snd h"
  have line: "header_line h = ?n @ CHR '':'' # (CHR '' '' # ?v)"
    by (simp add: header_line_def)
  have c: "CHR '':'' \<notin> set ?n" using assms by (simp add: header_ok_def)
  have idx: "index_of '':'' (header_line h) = Some (length ?n)"
    unfolding line using c by (rule index_of_char)
  have tk: "take (length ?n) (header_line h) = ?n"
    and dr: "drop (Suc (length ?n)) (header_line h) = CHR '' '' # ?v"
    by (simp_all add: line)
  have tv: "trim (CHR '' '' # ?v) = ?v"
    using assms by (simp add: trim_space_Cons is_space_blank header_ok_def)
  have tn: "trim ?n = ?n" and np: "?n \<noteq> ''__proto__''"
    using assms by (simp_all add: header_ok_def)
  have ne: "header_line h \<noteq> []" by (simp add: line)
  show ?thesis
    using ne np by (simp add: add_header_def Let_def idx tk dr tv tn)
qed

lemma foldl_add_header_lines:
  assumes "list_all header_ok hs" and "distinct (map fst hs)"
    and "fst ` set acc \<inter> fst ` set hs = {}"
  shows "foldl add_header acc (map header_line hs) = acc @ hs"
  using assms
proof (induction hs arbitrary: acc)
  case Nil
  show ?case by simp
next
  case (Cons h hs)
  have new: "fst h \<notin> fst ` set acc" using Cons.prems(3) by auto
  have step: "add_header acc (header_line h) = acc @ [h]"
    using Cons.prems(1) new by (simp add: add_header_line update_new)
  have "fst ` set (acc @ [h]) \<inter> fst ` set hs = {}"
    using Cons.prems(2,3) by auto
  then have "foldl add_header (acc @ [h]) (map header_line hs) = (acc @ [h]) @ hs"
    using Cons.prems(1,2) by (intro Cons.IH) simp_all
  then show ?case using step by simp
qed

lemma header_line_facts:
  assumes "header_ok h"
  shows "LF \<notin> set (header_line h)" and "header_line h \<noteq> []"
    and "last (header_line h) \<noteq> CR"
proof -
  show "LF \<notin> set (header_line h)"
    using assms by (auto simp: header_line_def header_ok_def LF_def)
  show "header_line h \<noteq> []" by (simp add: header_line_def)
  show "last (header_line h) \<noteq> CR"
  proof (cases "snd h = []")
    case True
    then show ?thesis by (simp add: header_line_def CR_def)
  next
    case False
    then have "\<not> is_space (last (snd h))"
      using assms by (simp add: trimmed_last header_ok_def)
    then have "last (snd h) \<noteq> CR" using is_space_CR by auto
    then show ?thesis using False by (simp add: header_line_def)
  qed
qed

subsection \<open>Parsing what was written\<close>

lemma concat_line_ends:
  "LF # concat (map (\<lambda>l. l @ [LF]) ls) = concat (map ((#) LF) ls) @ [LF]"
  by (induction ls) auto

lemma parse_invariant:
  assumes "parseFixtureString raw = Inr fx"
  shows "headers_ok (headers fx)" and "statusCode fx < 1000"
proof -
  let ?n = "crlf_to_lf raw"
  let ?hs = "case index_of [LF, LF] ?n of None \<Rightarrow> ?n | Some i \<Rightarrow> take i ?n"
  let ?lines = "split_on LF ?hs"
  obtain code where code: "status_match (hd ?lines) = Some code"
    and fx: "fx = \<lparr>statusCode = parse_dec code, headers = foldl add_header [] (tl ?lines),
                   body = (case index_of [LF, LF] ?n of None \<Rightarrow> [] | Some i \<Rightarrow> drop (i + 2) ?n)\<rparr>"
    using assms by (auto simp: parseFixtureString_def Let_def split: option.splits)
  have "\<forall>l \<in> set (tl ?lines). LF \<notin> set l"
  proof
    fix l assume "l \<in> set (tl ?lines)"
    then have "l \<in> set ?lines" by (cases ?lines) auto
    then show "LF \<notin> set l" by (rule split_on_no_sep)
  qed
  moreover have "headers_ok []" by (simp add: headers_ok_def)
  ultimately have "headers_ok (foldl add_header [] (tl ?lines))"
    by (rule foldl_add_header_ok[rotated])
  then show "headers_ok (headers fx)" by (simp add: fx)
  show "statusCode fx < 1000"
    using status_match_Some[OF code] by (simp add: fx parse_dec_bound)
qed

lemma parse_written:
  assumes "headers_ok (headers fx)" and "statusCode fx < 1000"
    and "\<not> sublist [CR, LF] (body fx)"
  shows "parseFixtureString (serialize_fixture fx) = Inr fx"
proof -
  let ?S = "''HTTP/1.1 '' @ show_status (statusCode fx)"
  let ?lines = "map header_line (headers fx)"
  let ?H = "?S @ concat (map ((#) LF) ?lines)"
  have ok: "list_all header_ok (headers fx)" and dist: "distinct (map fst (headers fx))"
    using assms(1) by (simp_all add: headers_ok_def)
  have lines: "\<forall>l \<in> set ?lines. LF \<notin> set l \<and> (l = [] \<or> last l \<noteq> CR)"
    "\<forall>l \<in> set ?lines. l \<noteq> [] \<and> LF \<notin> set l"
    using ok header_line_facts by (auto simp: list_all_iff)
  have d: "statusCode fx div 100 mod 10 < 10" "statusCode fx div 10 mod 10 < 10"
    "statusCode fx mod 10 < 10" by simp_all
  have "LF \<notin> set ''HTTP/1.1 ''" by (simp add: LF_def)
  moreover have "LF \<noteq> digit k" if "k < 10" for k
    using digit_not_LF[OF that] by (rule not_sym)
  then have "LF \<notin> set (show_status (statusCode fx))"
    using d by (simp add: show_status_def)
  ultimately have SLF: "LF \<notin> set ?S" by simp
  have Slast: "last ?S \<noteq> CR"
  proof -
    have "last ?S = digit (statusCode fx mod 10)" by (simp add: show_status_def)
    moreover have "\<not> is_space (digit (statusCode fx mod 10))"
      using d(3) by (simp add: is_space_def of_char_digit)
    ultimately show ?thesis using is_space_CR by auto
  qed
  have Sne: "?S \<noteq> []" by simp
  have ser: "serialize_fixture fx
      = (?S @ [LF]) @ (concat (map (\<lambda>l. l @ [LF]) ?lines) @ ([LF] @ body fx))"
    by (simp add: serialize_fixture_def comp_def)
  have body: "crlf_to_lf ([LF] @ body fx) = [LF] @ body fx"
    using assms(3) by (cases "body fx") (simp_all add: crlf_to_lf_id)
  have "crlf_to_lf (serialize_fixture fx)
      = crlf_to_lf (?S @ [LF]) @ crlf_to_lf (concat (map (\<lambda>l. l @ [LF]) ?lines) @ ([LF] @ body fx))"
    unfolding ser by (rule crlf_to_lf_append) simp
  also have "\<dots> = (?S @ [LF]) @ (concat (map (\<lambda>l. l @ [LF]) ?lines) @ ([LF] @ body fx))"
    using SLF Slast lines(1) by (simp only: crlf_to_lf_line crlf_to_lf_lines body simp_thms)
  finally have norm: "crlf_to_lf (serialize_fixture fx) = serialize_fixture fx"
    by (simp only: ser)
  have shape: "serialize_fixture fx = ?H @ LF # LF # body fx"
    unfolding ser using concat_line_ends[of ?lines] by simp
  have "no_blank_line ?S" using SLF by (rule no_blank_line_no_LF)
  then have "no_blank_line ?H"
    using Sne lines(2) by (rule no_blank_line_lines)
  then have idx0: "index_of [LF, LF] (serialize_fixture fx) = Some (length ?H)"
    unfolding shape by (rule index_of_blank)
  define k where "k = length ?H"
  have idx: "index_of [LF, LF] (serialize_fixture fx) = Some k"
    using idx0 by (simp only: k_def)
  have tk: "take k (serialize_fixture fx) = ?H"
    and dr: "drop (k + 2) (serialize_fixture fx) = body fx"
    unfolding shape k_def by simp_all
  have sp: "split_on LF ?H = ?S # ?lines"
    using SLF lines(2) by (intro split_on_lines) auto
  have st: "status_match ?S = Some (show_status (statusCode fx))"
    by (rule status_match_show_status)
  have hd: "foldl add_header [] ?lines = headers fx"
    using foldl_add_header_lines[OF ok dist, of "[]"] by simp
  have "parseFixtureString (serialize_fixture fx)
      = Inr \<lparr>statusCode = parse_dec (show_status (statusCode fx)), headers = headers fx,
               body = body fx\<rparr>"
    unfolding parseFixtureString_def Let_def norm idx option.case tk dr sp list.sel st hd
    by (rule refl)
  then show ?thesis
    using assms(2) by (simp add: parse_dec_show_status)
qed

text \<open>
  C8, with the condition it needs. Let the raw text parse to the fixture \<open>fx\<close>, and let the
  body of \<open>fx\<close> contain no CR LF pair. Then writing \<open>fx\<close> back (status line, headers as
  \<^verbatim>\<open>Name: value\<close> lines, a blank line, the body verbatim) and parsing the result gives the same
  record again. The condition is on the body because the parser replaces CR LF by LF once,
  from the left: a raw text with CR CR LF leaves a CR LF in the body, which a second parse
  replaces.
\<close>

theorem fixture_round_trip:
  assumes "parseFixtureString raw = Inr fx" and "\<not> sublist [CR, LF] (body fx)"
  shows "parseFixtureString (serialize_fixture fx) = parseFixtureString raw"
  using assms parse_invariant[OF assms(1)] by (simp add: parse_written)

lemma rate_limit_parsed:
  "parseFixtureString rate_limit_raw =
     Inr \<lparr>statusCode = 429,
          headers = [(''Content-Type'', ''application/json''), (''Retry-After'', ''30'')],
          body = ''{\"error\":\"rate limit\"}'' @ [LF, LF] @ ''trailer''\<rparr>"
  by code_simp

theorem fixture_round_trip_witness:
  "parseFixtureString
     (serialize_fixture
        \<lparr>statusCode = 429,
         headers = [(''Content-Type'', ''application/json''), (''Retry-After'', ''30'')],
         body = ''{\"error\":\"rate limit\"}'' @ [LF, LF] @ ''trailer''\<rparr>)
   = parseFixtureString rate_limit_raw"
proof -
  have "\<not> sublist [CR, LF] (''{\"error\":\"rate limit\"}'' @ [LF, LF] @ ''trailer'')"
    by code_simp
  then show ?thesis
    using fixture_round_trip[OF rate_limit_parsed] by simp
qed

text \<open>
  Without the condition the round trip fails: the body \<^verbatim>\<open>ab\r\r\ncd\<close> is parsed as
  \<^verbatim>\<open>ab\r\ncd\<close>, and written back and parsed again it is \<^verbatim>\<open>ab\ncd\<close>.
\<close>

theorem fixture_round_trip_counterexample:
  "parseFixtureString double_cr_raw
     = Inr \<lparr>statusCode = 200, headers = [], body = ''ab'' @ [CR, LF] @ ''cd''\<rparr>
   \<and> parseFixtureString
       (serialize_fixture \<lparr>statusCode = 200, headers = [], body = ''ab'' @ [CR, LF] @ ''cd''\<rparr>)
     = Inr \<lparr>statusCode = 200, headers = [], body = ''ab'' @ [LF] @ ''cd''\<rparr>
   \<and> ''ab'' @ [CR, LF] @ ''cd'' \<noteq> ''ab'' @ [LF] @ ''cd''"
  by code_simp

end
